theory Spec2Isabelle
  imports Main "HOL-Library.Word"
begin

section \<open>Sources\<close>

text \<open>
  The backend of the service that turns a web article into a narrated audio clip. Line
  numbers are those of the files under \<open>src/\<close>:
  \<^item> \<open>Clodflare-Backend/src/scraper.js\<close>: \<open>scrapeWebpage\<close> and \<open>extractTitle\<close> (lines 1 to 150)
    and, behind them in the same file, the worker's entry point with \<open>generatePodcastSync\<close>
    and \<open>generateAudio\<close>;
  \<^item> \<open>Clodflare-Backend/src/database.js\<close>: the store and \<open>generateCacheKey\<close>;
  \<^item> \<open>Clodflare-Backend/src/workflow.js\<close>: \<open>PodcastWorkflow\<close>;
  \<^item> \<open>unnamed/part_001\<close> (from line 427): \<open>summarizeArticle\<close>.
\<close>

section \<open>JavaScript strings\<close>

text \<open>
  A JavaScript string is a sequence of UTF-16 code units; \<open>length\<close>, \<open>substring\<close>,
  \<open>charCodeAt\<close> and \<open>lastIndexOf\<close> all count code units. String literals of the source
  are ASCII and are written \<open>js ''...''\<close>.
\<close>

type_synonym jschar = "16 word"
type_synonym jsstring = "jschar list"

definition js :: "string \<Rightarrow> jsstring" where
  "js s = map of_char s"

definition substring :: "jsstring \<Rightarrow> nat \<Rightarrow> nat \<Rightarrow> jsstring" where
  \<comment> \<open>\<open>s.substring(a, b)\<close> for \<open>0 \<le> a \<le> b\<close>; indices beyond the end are clamped.\<close>
  "substring s a b = take (b - a) (drop a s)"

fun lastIndexOf :: "jsstring \<Rightarrow> jschar \<Rightarrow> int" where
  \<comment> \<open>\<open>s.lastIndexOf(c)\<close> for a one-character needle: the greatest index holding \<open>c\<close>, or -1.\<close>
  "lastIndexOf [] c = -1"
| "lastIndexOf (x # xs) c =
     (let r = lastIndexOf xs c in
      if 0 \<le> r then r + 1 else if x = c then 0 else -1)"

definition period :: jschar where
  "period = 0x2E"

section \<open>Cache key (database.js, generateCacheKey)\<close>

text \<open>
  \<^verbatim>\<open>
  let hash = 0;
  for (let i = 0; i < url.length; i++) {
      const char = url.charCodeAt(i);
      hash = ((hash << 5) - hash) + char;
      hash = hash & hash;
  }
  return Math.abs(hash).toString(36);
  \<close>
  JavaScript numbers are doubles; \<open><<\<close> and \<open>&\<close> convert their operands with ToInt32.
  All intermediate values stay far below \<open>2^53\<close>, so the arithmetic between the two
  conversions is exact integer arithmetic.
\<close>

definition toInt32 :: "int \<Rightarrow> int" where
  "toInt32 n = ((n + 2 ^ 31) mod 2 ^ 32) - 2 ^ 31"

definition hashStep :: "int \<Rightarrow> jschar \<Rightarrow> int" where
  "hashStep hash ch = toInt32 ((toInt32 (toInt32 hash * 32) - hash) + uint ch)"

fun hashLoop :: "jsstring \<Rightarrow> int \<Rightarrow> int" where
  "hashLoop [] hash = hash"
| "hashLoop (ch # rest) hash = hashLoop rest (hashStep hash ch)"

definition digit36 :: "nat \<Rightarrow> jschar" where
  "digit36 d = (if d < 10 then of_nat (48 + d) else of_nat (87 + d))"

function toString36 :: "nat \<Rightarrow> jsstring" where
  "toString36 n = (if n < 36 then [digit36 n] else toString36 (n div 36) @ [digit36 (n mod 36)])"
  by pat_completeness auto
termination
  by (relation "measure id") auto

declare toString36.simps [simp del]

definition generateCacheKey :: "jsstring \<Rightarrow> jsstring" where
  "generateCacheKey url = toString36 (nat \<bar>hashLoop url 0\<bar>)"

text \<open>
  The same loop as a relation between the states of its variables \<open>i\<close> and \<open>hash\<close>:
  \<open>cacheKeyLoop url i hash result\<close> holds when the loop, entered with these values, leaves
  with \<open>hash = result\<close>. \<open>computesCacheKey url key\<close>: a call returns \<open>key\<close>.
\<close>

inductive cacheKeyLoop :: "jsstring \<Rightarrow> nat \<Rightarrow> int \<Rightarrow> int \<Rightarrow> bool" where
  loop_exit: "\<not> i < length url \<Longrightarrow> cacheKeyLoop url i hash hash"
| loop_body: "i < length url \<Longrightarrow> cacheKeyLoop url (i + 1) (hashStep hash (url ! i)) result
              \<Longrightarrow> cacheKeyLoop url i hash result"

definition computesCacheKey :: "jsstring \<Rightarrow> jsstring \<Rightarrow> bool" where
  "computesCacheKey url key \<longleftrightarrow>
     (\<exists>hash. cacheKeyLoop url 0 0 hash \<and> key = toString36 (nat \<bar>hash\<bar>))"


section \<open>Sentence-boundary truncation\<close>

text \<open>
  The same block occurs inline in \<open>scrapeWebpage\<close>, \<open>generatePodcastSync\<close>,
  \<open>PodcastWorkflow.run\<close> and \<open>summarizeArticle\<close> with the constants 1000 and 800, and in
  both copies of \<open>generateAudio\<close> with 800 and 600:
  \<^verbatim>\<open>
  if (text.length > LIMIT) {
      text = text.substring(0, LIMIT);
      const lastPeriod = text.lastIndexOf('.');
      if (lastPeriod > FLOOR) { text = text.substring(0, lastPeriod + 1); }
  }
  \<close>
\<close>

definition cutAtSentence :: "nat \<Rightarrow> int \<Rightarrow> jsstring \<Rightarrow> jsstring" where
  "cutAtSentence limit threshold text =
     (if length text > limit then
        (let t = substring text 0 limit;
             lastPeriod = lastIndexOf t period
         in if lastPeriod > threshold then substring t 0 (nat (lastPeriod + 1)) else t)
      else text)"

section \<open>Regular expressions of the source\<close>

text \<open>
  None of the regular expressions carries the \<open>u\<close> flag. With the \<open>i\<close> flag a pattern
  character that is an ASCII letter then matches exactly its two ASCII cases (a code unit
  above 127 is never folded onto an ASCII one), and \<open>\s\<close>, \<open>\w\<close> and \<open>\b\<close> are the
  fixed sets below.
\<close>

definition asciiUpper :: "jschar \<Rightarrow> jschar" where
  "asciiUpper c = (if 0x61 \<le> c \<and> c \<le> 0x7A then c - 0x20 else c)"

definition asciiLower :: "jschar \<Rightarrow> jschar" where
  "asciiLower c = (if 0x41 \<le> c \<and> c \<le> 0x5A then c + 0x20 else c)"

definition isWhiteSpace :: "jschar \<Rightarrow> bool" where
  \<comment> \<open>\<open>\s\<close>, which is also what \<open>trim()\<close> strips: WhiteSpace and LineTerminator.\<close>
  "isWhiteSpace c \<longleftrightarrow>
     (0x09 \<le> c \<and> c \<le> 0x0D) \<or> c = 0x20 \<or> c = 0xA0 \<or> c = 0x1680 \<or>
     (0x2000 \<le> c \<and> c \<le> 0x200A) \<or> c = 0x2028 \<or> c = 0x2029 \<or> c = 0x202F \<or>
     c = 0x205F \<or> c = 0x3000 \<or> c = 0xFEFF"

definition isLineTerminator :: "jschar \<Rightarrow> bool" where
  \<comment> \<open>what \<open>.\<close> does not match\<close>
  "isLineTerminator c \<longleftrightarrow> c = 0x0A \<or> c = 0x0D \<or> c = 0x2028 \<or> c = 0x2029"

definition isWordChar :: "jschar \<Rightarrow> bool" where
  \<comment> \<open>\<open>\w\<close>\<close>
  "isWordChar c \<longleftrightarrow>
     (0x30 \<le> c \<and> c \<le> 0x39) \<or> (0x41 \<le> c \<and> c \<le> 0x5A) \<or> c = 0x5F \<or>
     (0x61 \<le> c \<and> c \<le> 0x7A)"

definition startsWith :: "jsstring \<Rightarrow> jsstring \<Rightarrow> bool" where
  \<comment> \<open>the literal \<open>pat\<close> matches at the start of \<open>s\<close>\<close>
  "startsWith pat s \<longleftrightarrow> take (length pat) s = pat"

definition startsWithCI :: "jsstring \<Rightarrow> jsstring \<Rightarrow> bool" where
  \<comment> \<open>the same under the \<open>i\<close> flag\<close>
  "startsWithCI pat s \<longleftrightarrow> map asciiUpper (take (length pat) s) = map asciiUpper pat"

fun indexOf :: "jsstring \<Rightarrow> jsstring \<Rightarrow> nat option" where
  \<comment> \<open>the first index of \<open>s\<close> at which the literal \<open>pat\<close> matches\<close>
  "indexOf pat [] = (if pat = [] then Some 0 else None)"
| "indexOf pat (c # cs) =
     (if startsWith pat (c # cs) then Some 0 else map_option Suc (indexOf pat cs))"

fun indexOfCI :: "jsstring \<Rightarrow> jsstring \<Rightarrow> nat option" where
  "indexOfCI pat [] = (if pat = [] then Some 0 else None)"
| "indexOfCI pat (c # cs) =
     (if startsWithCI pat (c # cs) then Some 0 else map_option Suc (indexOfCI pat cs))"

text \<open>
  \<open>s.replace(/re/g, rep)\<close>: the matcher \<open>m\<close> gives, for the rest of the input at the current
  position, the length of the match of \<open>re\<close> starting there. A match is replaced and the
  scan resumes behind it; an empty match inserts the replacement and steps over one
  character; an unmatched character is copied.
\<close>

fun replaceAll :: "(jsstring \<Rightarrow> nat option) \<Rightarrow> jsstring \<Rightarrow> jsstring \<Rightarrow> jsstring" where
  "replaceAll m rep [] = (case m [] of None \<Rightarrow> [] | Some n \<Rightarrow> rep)"
| "replaceAll m rep (c # cs) =
     (case m (c # cs) of
        None \<Rightarrow> c # replaceAll m rep cs
      | Some 0 \<Rightarrow> rep @ c # replaceAll m rep cs
      | Some (Suc n) \<Rightarrow> rep @ replaceAll m rep (drop n cs))"

definition replaceFirstAtStart :: "(jsstring \<Rightarrow> nat option) \<Rightarrow> jsstring \<Rightarrow> jsstring \<Rightarrow> jsstring" where
  \<comment> \<open>\<open>s.replace(/^re/, rep)\<close>: without \<open>g\<close> and \<open>m\<close> the only candidate position is 0.\<close>
  "replaceFirstAtStart m rep s = (case m s of None \<Rightarrow> s | Some n \<Rightarrow> rep @ drop n s)"

definition trim :: "jsstring \<Rightarrow> jsstring" where
  "trim s = rev (dropWhile isWhiteSpace (rev (dropWhile isWhiteSpace s)))"

definition matchLiteral :: "jsstring \<Rightarrow> jsstring \<Rightarrow> nat option" where
  "matchLiteral pat s = (if startsWith pat s then Some (length pat) else None)"

definition matchBlock :: "jsstring \<Rightarrow> jsstring \<Rightarrow> nat option" where
  \<comment> \<open>\<open><TAG\b[^<]*(?:(?!<\/TAG>)<[^<]*)*<\/TAG>\<close> with flag \<open>i\<close>: the opening \<open><TAG\<close> not
      followed by a word character, then everything up to and including the first \<open></TAG>\<close>.
      The lookahead stops the group at every \<open></TAG>\<close>, and \<open>[^<]*\<close> cannot step over
      a \<open><\<close>, so no later closing tag can end the match.\<close>
  "matchBlock tag s =
     (let opening = js ''<'' @ tag;
          closing = js ''</'' @ tag @ js ''>'';
          rest = drop (length opening) s
      in if startsWithCI opening s \<and> (case rest of [] \<Rightarrow> True | r # _ \<Rightarrow> \<not> isWordChar r) then
           (case indexOfCI closing rest of
              None \<Rightarrow> None
            | Some p \<Rightarrow> Some (length opening + p + length closing))
         else None)"

definition matchComment :: "jsstring \<Rightarrow> nat option" where
  \<comment> \<open>\<open><!--[\s\S]*?-->\<close>: lazy, so up to the first \<open>-->\<close> behind the opening.\<close>
  "matchComment s =
     (if startsWith (js ''<!--'') s then
        (case indexOf (js ''-->'') (drop 4 s) of
           None \<Rightarrow> None
         | Some p \<Rightarrow> Some (4 + p + 3))
      else None)"

definition matchTag :: "jsstring \<Rightarrow> nat option" where
  \<comment> \<open>\<open><[^>]+>\<close>: a \<open><\<close>, at least one character other than \<open>>\<close>, then \<open>>\<close>.\<close>
  "matchTag s =
     (case s of
        [] \<Rightarrow> None
      | c # r \<Rightarrow>
          if c = 0x3C then
            (let k = length (takeWhile (\<lambda>x. x \<noteq> 0x3E) r)
             in if 1 \<le> k \<and> k < length r then Some (k + 2) else None)
          else None)"

definition matchWhiteSpace :: "jsstring \<Rightarrow> nat option" where
  \<comment> \<open>\<open>\s+\<close>\<close>
  "matchWhiteSpace s =
     (let k = length (takeWhile isWhiteSpace s) in if 1 \<le> k then Some k else None)"

section \<open>Content extraction (scraper.js, scrapeWebpage)\<close>

definition decodeEntities :: "jsstring \<Rightarrow> jsstring" where
  "decodeEntities t =
     replaceAll (matchLiteral (js ''&apos;'')) (js [CHR 0x27])
      (replaceAll (matchLiteral (js ''&#39;'')) (js [CHR 0x27])
       (replaceAll (matchLiteral (js ''&quot;'')) (js [CHR 0x22])
        (replaceAll (matchLiteral (js ''&gt;'')) (js ''>'')
         (replaceAll (matchLiteral (js ''&lt;'')) (js ''<'')
          (replaceAll (matchLiteral (js ''&amp;'')) (js ''&'')
           (replaceAll (matchLiteral (js ''&nbsp;'')) (js '' '') t))))))"

definition cleanHtml :: "jsstring \<Rightarrow> jsstring" where
  \<comment> \<open>lines 34 to 62 of \<open>scrapeWebpage\<close>, in the order of the source\<close>
  "cleanHtml html =
     (let t1 = replaceAll (matchBlock (js ''script'')) [] html;
          t2 = replaceAll (matchBlock (js ''style'')) [] t1;
          t3 = replaceAll matchComment [] t2;
          t4 = replaceAll matchTag (js '' '') t3;
          t5 = decodeEntities t4;
          t6 = replaceAll matchWhiteSpace (js '' '') t5
      in trim t6)"

text \<open>
  The outcome of \<open>fetch(url, ...)\<close> followed by \<open>response.text()\<close>: either of them may
  reject; \<open>resp_text = None\<close> stands for a body that cannot be read.
\<close>

record response =
  resp_ok :: bool
  resp_status :: nat
  resp_statusText :: jsstring
  resp_text :: "jsstring option"

datatype fetch_outcome = FetchRejects | FetchResolves response

text \<open>
  Every failure of \<open>scrapeWebpage\<close> is an \<open>Error\<close> whose message is
  \<open>Failed to scrape webpage: \<close> followed by the message of the cause:
  \<^item> \<open>FetchRejected\<close>: the rejection of \<open>fetch\<close> or of \<open>text()\<close>;
  \<^item> \<open>FetchNotOk\<close>: \<open>Failed to fetch webpage: <status> <statusText>\<close>;
  \<^item> \<open>InsufficientHtml\<close>: \<open>Webpage returned empty or insufficient content\<close>;
  \<^item> \<open>NotEnoughContent\<close>: \<open>Not enough meaningful content found on the page\<close>.
\<close>

datatype scrape_error =
    FetchRejected
  | FetchNotOk nat jsstring
  | InsufficientHtml
  | NotEnoughContent

definition scrapeWebpage :: "(jsstring \<Rightarrow> fetch_outcome) \<Rightarrow> jsstring \<Rightarrow> scrape_error + jsstring" where
  "scrapeWebpage fetch url =
     (case fetch url of
        FetchRejects \<Rightarrow> Inl FetchRejected
      | FetchResolves response \<Rightarrow>
          if \<not> resp_ok response then
            Inl (FetchNotOk (resp_status response) (resp_statusText response))
          else
            (case resp_text response of
               None \<Rightarrow> Inl FetchRejected
             | Some html \<Rightarrow>
                 if html = [] \<or> length html < 100 then Inl InsufficientHtml
                 else
                   (let textContent = cutAtSentence 1000 800 (cleanHtml html)
                    in if length textContent < 100 then Inl NotEnoughContent
                       else Inr textContent)))"


section \<open>Title derivation (scraper.js, extractTitle)\<close>

text \<open>
  \<open>new URL(url)\<close> is the platform's parser and is a parameter of the model: it yields the
  parsed URL or \<open>None\<close> where the constructor throws. The components it returns are
  ASCII (the host is lower case, the path is percent-encoded), on which \<open>toUpperCase\<close>
  and \<open>toLowerCase\<close> are the ASCII mappings.
\<close>

record url_object =
  url_pathname :: jsstring
  url_hostname :: jsstring

fun splitOn :: "jschar \<Rightarrow> jsstring \<Rightarrow> jsstring list" where
  \<comment> \<open>\<open>s.split(sep)\<close> for a one-character separator\<close>
  "splitOn sep [] = [[]]"
| "splitOn sep (c # cs) =
     (if c = sep then [] # splitOn sep cs
      else (case splitOn sep cs of [] \<Rightarrow> [[c]] | w # ws \<Rightarrow> (c # w) # ws))"

fun join :: "jsstring \<Rightarrow> jsstring list \<Rightarrow> jsstring" where
  "join sep [] = []"
| "join sep [w] = w"
| "join sep (w # ws) = w @ sep @ join sep ws"

definition replaceFirstLiteral :: "jsstring \<Rightarrow> jsstring \<Rightarrow> jsstring \<Rightarrow> jsstring" where
  \<comment> \<open>\<open>s.replace(pat, rep)\<close> with a string pattern: the first occurrence only\<close>
  "replaceFirstLiteral pat rep s =
     (case indexOf pat s of
        None \<Rightarrow> s
      | Some i \<Rightarrow> take i s @ rep @ drop (i + length pat) s)"

definition stripExtension :: "jsstring \<Rightarrow> jsstring" where
  \<comment> \<open>\<open>s.replace(/\.[^.]+$/, '')\<close>: the last period, when at least one character follows it\<close>
  "stripExtension s =
     (let p = lastIndexOf s period
      in if 0 \<le> p \<and> nat p + 1 < length s then take (nat p) s else s)"

fun capitalize :: "jsstring \<Rightarrow> jsstring" where
  \<comment> \<open>\<open>word.charAt(0).toUpperCase() + word.slice(1).toLowerCase()\<close>\<close>
  "capitalize [] = []"
| "capitalize (c # cs) = asciiUpper c # map asciiLower cs"

definition titleCandidate :: "url_object \<Rightarrow> jsstring" where
  \<comment> \<open>lines 99 to 131: the title before the fallback and the length limit\<close>
  "titleCandidate urlObject =
     (let pathSegments = filter (\<lambda>segment. length segment > 0) (splitOn 0x2F (url_pathname urlObject));
          titleSegment =
            (if length pathSegments = 0
             then replaceFirstLiteral (js ''www.'') [] (url_hostname urlObject)
             else last pathSegments);
          titleSegment = stripExtension titleSegment;
          title = replaceAll (matchLiteral (js ''_'')) (js '' '')
                    (replaceAll (matchLiteral (js ''-'')) (js '' '') titleSegment);
          title = join (js '' '') (map capitalize (splitOn 0x20 title))
      in trim (replaceAll matchWhiteSpace (js '' '') title))"

definition extractTitle :: "(jsstring \<Rightarrow> url_object option) \<Rightarrow> jsstring \<Rightarrow> jsstring" where
  "extractTitle newURL url =
     (case newURL url of
        None \<Rightarrow> js ''Article''
      | Some urlObject \<Rightarrow>
          (let title = titleCandidate urlObject;
               title = (if title = [] \<or> length title < 3 then js ''Article'' else title)
           in if length title > 100 then trim (substring title 0 100) else title))"

section \<open>Summarization (unnamed/part_001, summarizeArticle)\<close>

text \<open>
  The shapes of the value \<open>ai.run\<close> resolves to, as far as the function inspects them:
  an object with the fields \<open>response\<close> and \<open>result.response\<close> (\<open>None\<close> when absent),
  a string, or anything else.
\<close>

datatype ai_response =
    ResponseObject "jsstring option" "jsstring option"
  | ResponseString jsstring
  | ResponseOther

datatype ai_outcome = AiRejects | AiResolves ai_response

type_synonym ai_binding = "jsstring \<Rightarrow> ai_outcome"

text \<open>
  The messages of the errors \<open>summarizeArticle\<close> throws:
  \<^item> \<open>AIBindingNotAvailable\<close>: \<open>AI binding not available\<close>;
  \<^item> \<open>InvalidContent\<close>: \<open>Invalid content provided for summarization\<close>;
  \<^item> \<open>ContentTooShort\<close>: \<open>Content too short for summarization (minimum 100 characters)\<close>;
  \<^item> \<open>InsufficientAIContent n\<close>: \<open>AI generated insufficient content: n characters\<close>;
  \<^item> \<open>InvalidResponseFormat\<close>: \<open>AI summarization failed: Invalid response format from AI model\<close>;
  \<^item> \<open>AIRunFailed\<close>: the rejection of \<open>ai.run\<close>, prefixed the same way.
\<close>

datatype summarize_error =
    AIBindingNotAvailable
  | InvalidContent
  | ContentTooShort
  | InsufficientAIContent nat
  | InvalidResponseFormat
  | AIRunFailed

text \<open>
  The speech endpoint answers a request with audio bytes, with a status that is not ok and
  a body, or not at all. An event is a call of one of the four functions of the pipeline
  (with its argument) or a request sent to a hosted capability.
\<close>

datatype tts_outcome = TtsRejects | TtsNotOk nat jsstring | TtsAudio "8 word list"

record tts_request =
  tts_voiceId :: jsstring
  tts_apiKey :: jsstring
  tts_text :: jsstring

datatype event =
    ScrapeWebpage jsstring
  | ExtractTitle jsstring
  | SummarizeArticle jsstring
  | GenerateAudio jsstring
  | AiRun jsstring
  | TtsPost tts_request

definition truthy :: "jsstring option \<Rightarrow> bool" where
  "truthy v = (case v of None \<Rightarrow> False | Some s \<Rightarrow> s \<noteq> [])"

fun responseText :: "ai_response \<Rightarrow> jsstring option" where
  \<comment> \<open>lines 490 to 500; \<open>None\<close> is \<open>Invalid response format from AI model\<close>\<close>
  "responseText (ResponseObject r rr) = (if truthy r then r else if truthy rr then rr else None)"
| "responseText (ResponseString s) = Some s"
| "responseText ResponseOther = None"

definition firstSome :: "'a option list \<Rightarrow> 'a option" where
  \<comment> \<open>the alternatives of a group are tried in order\<close>
  "firstSome xs = (case List.map_filter id xs of [] \<Rightarrow> None | x # _ \<Rightarrow> Some x)"

definition matchPreamble :: "jsstring \<Rightarrow> nat option" where
  \<comment> \<open>\<open>^(Here's|Here is|This is|I've created).*?:\<close> with flag \<open>i\<close>: \<open>.*?\<close> is lazy and does
      not match a line terminator, so the match ends at the first colon, if no line
      terminator comes before it.\<close>
  "matchPreamble s =
     firstSome (map (\<lambda>p.
        if startsWithCI p s then
          (let rest = drop (length p) s;
               k = length (takeWhile (\<lambda>c. c \<noteq> 0x3A \<and> \<not> isLineTerminator c) rest)
           in if k < length rest \<and> rest ! k = 0x3A then Some (length p + k + 1) else None)
        else None)
      [js ''Here'' @ [0x27] @ js ''s'', js ''Here is'', js ''This is'',
       js ''I'' @ [0x27] @ js ''ve created''])"

definition matchAcknowledgement :: "jsstring \<Rightarrow> nat option" where
  \<comment> \<open>\<open>^(Sure|Okay|Alright)[,!.]?\s*\<close> with flag \<open>i\<close>\<close>
  "matchAcknowledgement s =
     firstSome (map (\<lambda>p.
        if startsWithCI p s then
          (let rest = drop (length p) s;
               punct = (case rest of [] \<Rightarrow> 0 | c # _ \<Rightarrow> if c = 0x2C \<or> c = 0x21 \<or> c = 0x2E then 1 else 0)
           in Some (length p + punct + length (takeWhile isWhiteSpace (drop punct rest))))
        else None)
      [js ''Sure'', js ''Okay'', js ''Alright''])"

definition cleanSummary :: "jsstring \<Rightarrow> jsstring" where
  \<comment> \<open>lines 503 to 509\<close>
  "cleanSummary summary =
     trim (replaceFirstAtStart matchAcknowledgement []
            (replaceFirstAtStart matchPreamble [] (trim summary)))"

definition userPrompt :: "jsstring \<Rightarrow> jsstring" where
  \<comment> \<open>the template of lines 470 to 472\<close>
  "userPrompt processedContent =
     js ''Article: '' @ processedContent @ [0x0A, 0x0A] @ js ''Podcast script:''"

definition summarizeArticle :: "ai_binding option \<Rightarrow> jsstring \<Rightarrow> (summarize_error + jsstring) \<times> event list" where
  "summarizeArticle ai content =
     (case ai of
        None \<Rightarrow> (Inl AIBindingNotAvailable, [])
      | Some run \<Rightarrow>
          if content = [] then (Inl InvalidContent, [])
          else if length content < 100 then (Inl ContentTooShort, [])
          else
            (let processedContent = cutAtSentence 1000 800 content;
                 prompt = userPrompt processedContent
             in (case run prompt of
                   AiRejects \<Rightarrow> (Inl AIRunFailed, [AiRun prompt])
                 | AiResolves response \<Rightarrow>
                     (case responseText response of
                        None \<Rightarrow> (Inl InvalidResponseFormat, [AiRun prompt])
                      | Some raw \<Rightarrow>
                          (let summary = cleanSummary raw
                           in if summary = [] \<or> length summary < 50
                              then (Inl (InsufficientAIContent (length summary)), [AiRun prompt])
                              else (Inr summary, [AiRun prompt]))))))"


section \<open>The relational store (database.js)\<close>

text \<open>
  The tables \<open>podcasts\<close> and \<open>processing_logs\<close> of the schema. Columns declared
  \<open>NOT NULL\<close> hold a value, the others hold \<open>None\<close> for \<open>NULL\<close>. A D1 statement may fail
  for reasons outside the program (\<open>d1_select_ok\<close>, \<open>d1_insert_ok\<close>); an insert also fails
  on the \<open>UNIQUE\<close> constraints of \<open>url\<close> and \<open>cache_key\<close>.
\<close>

record podcast_row =
  row_id :: nat
  row_url :: jsstring
  row_title :: jsstring
  row_summary :: jsstring
  row_audio_file_name :: jsstring
  row_audio_url :: "jsstring option"
  row_created_at :: "jsstring option"
  row_updated_at :: "jsstring option"
  row_user_id :: "jsstring option"
  row_status :: "jsstring option"
  row_processing_time_ms :: "int option"
  row_content_length :: "int option"
  row_summary_length :: "int option"
  row_audio_size_bytes :: "int option"
  row_cache_key :: "jsstring option"

record processing_log =
  log_podcast_id :: "nat option"
  log_url :: "jsstring option"
  log_error_type :: "jsstring option"
  log_error_message :: "jsstring option"
  log_stack_trace :: "jsstring option"

record d1 =
  podcasts :: "podcast_row list"
  processing_logs :: "processing_log list"
  d1_last_row_id :: nat
  d1_current_timestamp :: jsstring
  d1_select_ok :: bool
  d1_insert_ok :: bool

text \<open>
  The object the pipeline assembles (\<open>podcastData\<close>) and the object a lookup returns have
  the same fields; a field the object does not have is \<open>None\<close>, and \<open>pd_cached\<close> is the
  \<open>cached: true\<close> marker.
\<close>

record podcast_data =
  pd_id :: "nat option"
  pd_url :: jsstring
  pd_title :: jsstring
  pd_summary :: jsstring
  pd_audioFileName :: jsstring
  pd_audioUrl :: "jsstring option"
  pd_createdAt :: "jsstring option"
  pd_userId :: "jsstring option"
  pd_status :: "jsstring option"
  pd_processingTimeMs :: "int option"
  pd_contentLength :: "int option"
  pd_summaryLength :: "int option"
  pd_audioSizeBytes :: "int option"
  pd_cacheKey :: "jsstring option"
  pd_cached :: bool

definition initializeDatabase :: "d1 \<Rightarrow> d1" where
  \<comment> \<open>every statement is \<open>CREATE ... IF NOT EXISTS\<close> and every error is caught: the rows
      stay as they are, and the callers ignore the flag it returns\<close>
  "initializeDatabase db = db"

definition orDefault :: "jsstring option \<Rightarrow> jsstring \<Rightarrow> jsstring option" where
  \<comment> \<open>a destructuring default: it applies to a field that is absent\<close>
  "orDefault v d = (case v of None \<Rightarrow> Some d | Some x \<Rightarrow> Some x)"

definition uniqueViolation :: "d1 \<Rightarrow> jsstring \<Rightarrow> jsstring option \<Rightarrow> bool" where
  \<comment> \<open>\<open>url TEXT NOT NULL UNIQUE\<close>, \<open>cache_key TEXT UNIQUE\<close> (\<open>NULL\<close> never collides)\<close>
  "uniqueViolation db url cacheKey \<longleftrightarrow>
     url \<in> set (map row_url (podcasts db)) \<or>
     (cacheKey \<noteq> None \<and> cacheKey \<in> set (map row_cache_key (podcasts db)))"

definition insertedRow :: "d1 \<Rightarrow> podcast_data \<Rightarrow> podcast_row" where
  \<comment> \<open>the row of the \<open>INSERT\<close>: the twelve bound values, the next \<open>AUTOINCREMENT\<close> id and
      the two \<open>CURRENT_TIMESTAMP\<close> defaults\<close>
  "insertedRow db data =
     \<lparr> row_id = d1_last_row_id db + 1,
       row_url = pd_url data,
       row_title = pd_title data,
       row_summary = pd_summary data,
       row_audio_file_name = pd_audioFileName data,
       row_audio_url = pd_audioUrl data,
       row_created_at = Some (d1_current_timestamp db),
       row_updated_at = Some (d1_current_timestamp db),
       row_user_id = orDefault (pd_userId data) (js ''anonymous''),
       row_status = orDefault (pd_status data) (js ''completed''),
       row_processing_time_ms = pd_processingTimeMs data,
       row_content_length = pd_contentLength data,
       row_summary_length = pd_summaryLength data,
       row_audio_size_bytes = pd_audioSizeBytes data,
       row_cache_key = pd_cacheKey data \<rparr>"

definition savePodcast :: "d1 \<Rightarrow> podcast_data \<Rightarrow> nat option \<times> d1" where
  \<comment> \<open>\<open>Some id\<close> is \<open>{success: true, id}\<close>, \<open>None\<close> is \<open>{success: false, error}\<close>: the function
      catches every error of the insert\<close>
  "savePodcast db data =
     (if d1_insert_ok db \<and> \<not> uniqueViolation db (pd_url data) (pd_cacheKey data) then
        (let row = insertedRow db data
         in (Some (row_id row),
             db\<lparr> podcasts := podcasts db @ [row], d1_last_row_id := row_id row \<rparr>))
      else (None, db))"

definition rowToApi :: "podcast_row \<Rightarrow> podcast_data" where
  \<comment> \<open>"Convert database row to API format"\<close>
  "rowToApi result =
     \<lparr> pd_id = Some (row_id result),
       pd_url = row_url result,
       pd_title = row_title result,
       pd_summary = row_summary result,
       pd_audioFileName = row_audio_file_name result,
       pd_audioUrl = row_audio_url result,
       pd_createdAt = row_created_at result,
       pd_userId = row_user_id result,
       pd_status = row_status result,
       pd_processingTimeMs = row_processing_time_ms result,
       pd_contentLength = row_content_length result,
       pd_summaryLength = row_summary_length result,
       pd_audioSizeBytes = row_audio_size_bytes result,
       pd_cacheKey = row_cache_key result,
       pd_cached = False \<rparr>"

definition getPodcastByUrl :: "d1 \<Rightarrow> jsstring \<Rightarrow> podcast_data option" where
  \<comment> \<open>\<open>Some data\<close> is \<open>{success: true, data}\<close>; \<open>None\<close> is \<open>{success: false, ...}\<close>, for no row
      as well as for a failed query\<close>
  "getPodcastByUrl db url =
     (if d1_select_ok db then map_option rowToApi (find (\<lambda>r. row_url r = url) (podcasts db))
      else None)"

definition logProcessingError :: "d1 \<Rightarrow> processing_log \<Rightarrow> bool \<times> d1" where
  \<comment> \<open>lines 283 to 306; the entry point imports it, and nothing in the repository calls it\<close>
  "logProcessingError db errorData =
     (if d1_insert_ok db then (True, db\<lparr> processing_logs := processing_logs db @ [errorData] \<rparr>)
      else (False, db))"

section \<open>The object store\<close>

record r2_object =
  obj_body :: "8 word list"
  obj_contentType :: jsstring
  obj_url :: jsstring
  obj_title :: jsstring
  obj_createdAt :: jsstring
  obj_userId :: jsstring

record r2 =
  r2_objects :: "jsstring \<rightharpoonup> r2_object"
  r2_put_ok :: bool

definition bucketPut :: "r2 \<Rightarrow> jsstring \<Rightarrow> r2_object \<Rightarrow> r2 option" where
  \<comment> \<open>\<open>AUDIO_BUCKET.put(key, ...)\<close>; \<open>None\<close> where it rejects\<close>
  "bucketPut bucket key obj =
     (if r2_put_ok bucket then Some (bucket\<lparr> r2_objects := (r2_objects bucket)(key \<mapsto> obj) \<rparr>)
      else None)"

section \<open>Bindings and ambient capabilities\<close>

record env =
  PODCAST_DB :: "d1 option"
  AI :: "ai_binding option"
  AUDIO_BUCKET :: "r2 option"
  ELEVENLABS_API_KEY :: "jsstring option"
  ELEVENLABS_VOICE_ID :: "jsstring option"

text \<open>
  What a run reads from outside its arguments: the network (\<open>fetch\<close> of a page, the POST
  to the speech endpoint), the URL parser, and the clock (\<open>Date.now()\<close> at entry and at
  step 6, \<open>toISOString()\<close> at the upload and at the return).
\<close>

record world =
  fetch :: "jsstring \<Rightarrow> fetch_outcome"
  newURL :: "jsstring \<Rightarrow> url_object option"
  elevenlabs :: "tts_request \<Rightarrow> tts_outcome"
  startTime :: int
  saveTime :: int
  uploadIso :: jsstring
  returnIso :: jsstring

section \<open>Speech synthesis (the entry point and workflow.js, generateAudio)\<close>

text \<open>
  The messages: \<open>ElevenLabs API key not configured\<close>, \<open>Cannot generate audio from empty
  text\<close>, and, prefixed with \<open>ElevenLabs TTS failed: \<close>, the rejection of the request,
  \<open>ElevenLabs API error: <status> - <body>\<close> and \<open>ElevenLabs returned empty audio\<close>.
\<close>

datatype audio_error =
    ApiKeyNotConfigured
  | EmptyText
  | TtsRequestRejected
  | TtsApiError nat jsstring
  | TtsEmptyAudio

definition generateAudio :: "world \<Rightarrow> jsstring \<Rightarrow> env \<Rightarrow> (audio_error + 8 word list) \<times> event list" where
  "generateAudio w text env =
     (case ELEVENLABS_API_KEY env of
        None \<Rightarrow> (Inl ApiKeyNotConfigured, [])
      | Some apiKey \<Rightarrow>
          if apiKey = [] then (Inl ApiKeyNotConfigured, [])
          else if text = [] \<or> length (trim text) = 0 then (Inl EmptyText, [])
          else
            (let voiceId = (case ELEVENLABS_VOICE_ID env of
                              None \<Rightarrow> js ''21m00Tcm4TlvDq8ikWAM''
                            | Some v \<Rightarrow> if v = [] then js ''21m00Tcm4TlvDq8ikWAM'' else v);
                 processedText = cutAtSentence 800 600 text;
                 request = \<lparr> tts_voiceId = voiceId, tts_apiKey = apiKey, tts_text = processedText \<rparr>
             in (case elevenlabs w request of
                   TtsRejects \<Rightarrow> (Inl TtsRequestRejected, [TtsPost request])
                 | TtsNotOk status errorText \<Rightarrow> (Inl (TtsApiError status errorText), [TtsPost request])
                 | TtsAudio audioBuffer \<Rightarrow>
                     if length audioBuffer = 0 then (Inl TtsEmptyAudio, [TtsPost request])
                     else (Inr audioBuffer, [TtsPost request]))))"

section \<open>The synchronous pipeline (the entry point, generatePodcastSync)\<close>

text \<open>
  Every error thrown inside the function is caught at its end and returned as
  \<open>{success: false, error: message}\<close>. The messages:
  \<^item> \<open>ScrapeFailed e\<close>: \<open>Failed to scrape webpage: \<close> and the message of \<open>e\<close>;
  \<^item> \<open>InsufficientExtracted\<close>: \<open>Insufficient content extracted from webpage. ...\<close>;
  \<^item> \<open>AIServiceNotAvailable\<close>: \<open>AI service not available. Please check configuration.\<close>;
  \<^item> \<open>SummarizationFailed e\<close>: \<open>AI summarization failed: \<close> and the message of \<open>e\<close>;
  \<^item> \<open>InsufficientSummary\<close>: \<open>AI generated insufficient content. ...\<close>;
  \<^item> \<open>AudioGenerationFailed e\<close>: \<open>Audio generation failed: \<close> and the message of \<open>e\<close>;
  \<^item> \<open>GeneratedAudioEmpty\<close>: \<open>Audio generation failed: Generated audio is empty\<close>;
  \<^item> \<open>StorageNotConfigured\<close>: \<open>Audio storage not configured. ...\<close>;
  \<^item> \<open>StoreAudioFailed\<close>: \<open>Failed to store audio: \<close> and the message of the rejection.
\<close>

datatype pipeline_error =
    ScrapeFailed scrape_error
  | InsufficientExtracted
  | AIServiceNotAvailable
  | SummarizationFailed summarize_error
  | InsufficientSummary
  | AudioGenerationFailed audio_error
  | GeneratedAudioEmpty
  | StorageNotConfigured
  | StoreAudioFailed

text \<open>
  A run returns its result and leaves the two stores in a new state; \<open>trace\<close> lists, in
  order, the calls of the extraction, summarization and synthesis functions and the
  requests these sent to the hosted capabilities.
\<close>

record run_result =
  outcome :: "pipeline_error + podcast_data"
  db_after :: "d1 option"
  bucket_after :: "r2 option"
  trace :: "event list"

definition failure :: "pipeline_error \<Rightarrow> env \<Rightarrow> event list \<Rightarrow> run_result" where
  \<comment> \<open>the \<open>catch\<close> at the end of the function: nothing is written\<close>
  "failure e env tr =
     \<lparr> outcome = Inl e, db_after = PODCAST_DB env, bucket_after = AUDIO_BUCKET env, trace = tr \<rparr>"

definition audioFileName :: "jsstring \<Rightarrow> jsstring" where
  \<comment> \<open>the template \<open>podcast_${generateCacheKey(url)}.mp3\<close>\<close>
  "audioFileName url = js ''podcast_'' @ generateCacheKey url @ js ''.mp3''"

definition cachedResult :: "jsstring \<Rightarrow> podcast_data \<Rightarrow> podcast_data" where
  \<comment> \<open>lines 644 to 657\<close>
  "cachedResult origin cachedData =
     (if pd_audioFileName cachedData \<noteq> [] \<and>
         \<not> (case pd_audioUrl cachedData of None \<Rightarrow> False | Some u \<Rightarrow> startsWith (js ''http'') u)
      then cachedData\<lparr> pd_audioUrl := Some (origin @ js ''/audio/'' @ pd_audioFileName cachedData) \<rparr>
      else cachedData) \<lparr> pd_cached := True \<rparr>"

definition podcastData ::
  "world \<Rightarrow> jsstring \<Rightarrow> jsstring \<Rightarrow> jsstring \<Rightarrow> jsstring \<Rightarrow> jsstring \<Rightarrow> jsstring \<Rightarrow>
   8 word list \<Rightarrow> podcast_data" where
  \<comment> \<open>the object of lines 763 to 776\<close>
  "podcastData w url userId origin title content summary audioBuffer =
     \<lparr> pd_id = None,
       pd_url = url,
       pd_title = title,
       pd_summary = summary,
       pd_audioFileName = audioFileName url,
       pd_audioUrl = Some (origin @ js ''/audio/'' @ audioFileName url),
       pd_createdAt = None,
       pd_userId = Some userId,
       pd_status = Some (js ''completed''),
       pd_processingTimeMs = Some (saveTime w - startTime w),
       pd_contentLength = Some (int (length content)),
       pd_summaryLength = Some (int (length summary)),
       pd_audioSizeBytes = Some (int (length audioBuffer)),
       pd_cacheKey = Some (generateCacheKey url),
       pd_cached = False \<rparr>"

definition step6_save ::
  "world \<Rightarrow> jsstring \<Rightarrow> jsstring \<Rightarrow> env \<Rightarrow> jsstring \<Rightarrow> jsstring \<Rightarrow> jsstring \<Rightarrow> jsstring \<Rightarrow>
   8 word list \<Rightarrow> r2 \<Rightarrow> event list \<Rightarrow> run_result" where
  "step6_save w url userId env origin title content summary audioBuffer bucket tr =
     (let fullAudioUrl = origin @ js ''/audio/'' @ audioFileName url;
          data = podcastData w url userId origin title content summary audioBuffer
      in \<lparr> outcome = Inr (data\<lparr> pd_audioUrl := Some fullAudioUrl,
                                 pd_createdAt := Some (returnIso w) \<rparr>),
           db_after = map_option (\<lambda>db. snd (savePodcast db data)) (PODCAST_DB env),
           bucket_after = Some bucket,
           trace = tr \<rparr>)"

definition step5_store ::
  "world \<Rightarrow> jsstring \<Rightarrow> jsstring \<Rightarrow> env \<Rightarrow> jsstring \<Rightarrow> jsstring \<Rightarrow> jsstring \<Rightarrow> jsstring \<Rightarrow>
   8 word list \<Rightarrow> event list \<Rightarrow> run_result" where
  "step5_store w url userId env origin title content summary audioBuffer tr =
     (case AUDIO_BUCKET env of
        None \<Rightarrow> failure StorageNotConfigured env tr
      | Some bucket \<Rightarrow>
          (case bucketPut bucket (audioFileName url)
                  \<lparr> obj_body = audioBuffer, obj_contentType = js ''audio/mpeg'', obj_url = url,
                    obj_title = title, obj_createdAt = uploadIso w, obj_userId = userId \<rparr> of
             None \<Rightarrow> failure StoreAudioFailed env tr
           | Some bucket' \<Rightarrow>
               step6_save w url userId env origin title content summary audioBuffer bucket' tr))"

definition step4_audio ::
  "world \<Rightarrow> jsstring \<Rightarrow> jsstring \<Rightarrow> env \<Rightarrow> jsstring \<Rightarrow> jsstring \<Rightarrow> jsstring \<Rightarrow> jsstring \<Rightarrow>
   event list \<Rightarrow> run_result" where
  "step4_audio w url userId env origin title content summary tr =
     (case generateAudio w summary env of
        (Inl e, requests) \<Rightarrow>
          failure (AudioGenerationFailed e) env (tr @ GenerateAudio summary # requests)
      | (Inr audioBuffer, requests) \<Rightarrow>
          if length audioBuffer = 0
          then failure GeneratedAudioEmpty env (tr @ GenerateAudio summary # requests)
          else step5_store w url userId env origin title content summary audioBuffer
                 (tr @ GenerateAudio summary # requests))"

definition step3_summarize ::
  "world \<Rightarrow> jsstring \<Rightarrow> jsstring \<Rightarrow> env \<Rightarrow> jsstring \<Rightarrow> jsstring \<Rightarrow> jsstring \<Rightarrow>
   event list \<Rightarrow> run_result" where
  "step3_summarize w url userId env origin title content tr =
     (case AI env of
        None \<Rightarrow> failure AIServiceNotAvailable env tr
      | Some ai \<Rightarrow>
          (let truncatedContent = cutAtSentence 1000 800 content
           in (case summarizeArticle (Some ai) truncatedContent of
                 (Inl e, requests) \<Rightarrow>
                   failure (SummarizationFailed e) env (tr @ SummarizeArticle truncatedContent # requests)
               | (Inr summary, requests) \<Rightarrow>
                   if summary = [] \<or> length summary < 30
                   then failure InsufficientSummary env
                          (tr @ SummarizeArticle truncatedContent # requests)
                   else step4_audio w url userId env origin title content summary
                          (tr @ SummarizeArticle truncatedContent # requests))))"

definition step2_scrape :: "world \<Rightarrow> jsstring \<Rightarrow> jsstring \<Rightarrow> env \<Rightarrow> jsstring \<Rightarrow> run_result" where
  "step2_scrape w url userId env origin =
     (let title = extractTitle (newURL w) url;
          tr = [ScrapeWebpage url, ExtractTitle url]
      in (case scrapeWebpage (fetch w) url of
            Inl e \<Rightarrow> failure (ScrapeFailed e) env tr
          | Inr content \<Rightarrow>
              if content = [] \<or> length content < 100
              then failure InsufficientExtracted env tr
              else step3_summarize w url userId env origin title content tr))"

definition generatePodcastSync :: "world \<Rightarrow> jsstring \<Rightarrow> jsstring \<Rightarrow> env \<Rightarrow> jsstring \<Rightarrow> run_result" where
  "generatePodcastSync w url userId env origin =
     (let env = env\<lparr> PODCAST_DB := map_option initializeDatabase (PODCAST_DB env) \<rparr>
      in (case (case PODCAST_DB env of None \<Rightarrow> None | Some db \<Rightarrow> getPodcastByUrl db url) of
            Some cachedData \<Rightarrow>
              \<lparr> outcome = Inr (cachedResult origin cachedData),
                db_after = PODCAST_DB env,
                bucket_after = AUDIO_BUCKET env,
                trace = [] \<rparr>
          | None \<Rightarrow> step2_scrape w url userId env origin))"


section \<open>The step-wise pipeline (workflow.js, PodcastWorkflow.run)\<close>








section \<open>The record-creation invariant\<close>


section \<open>Plain text\<close>

text \<open>
  Text as the cleaning of \<open>scrapeWebpage\<close> leaves it: no \<open><\<close> and no \<open>&\<close>, no white space
  other than single spaces between words, and none at either end.
\<close>

fun singleSpaced :: "jsstring \<Rightarrow> bool" where
  "singleSpaced (a # b # cs) \<longleftrightarrow> \<not> (a = 0x20 \<and> b = 0x20) \<and> singleSpaced (b # cs)"
| "singleSpaced _ \<longleftrightarrow> True"

definition plainText :: "jsstring \<Rightarrow> bool" where
  "plainText t \<longleftrightarrow>
     list_all (\<lambda>c. c \<noteq> 0x3C \<and> c \<noteq> 0x26 \<and> (isWhiteSpace c \<longrightarrow> c = 0x20)) t \<and>
     singleSpaced t \<and>
     (case t of [] \<Rightarrow> True | c # _ \<Rightarrow> c \<noteq> 0x20) \<and>
     (t = [] \<or> last t \<noteq> 0x20)"


text \<open>Fixtures: a server that answers every request with the page \<open>html\<close>.\<close>

definition okResponse :: "jsstring \<Rightarrow> response" where
  "okResponse html =
     \<lparr> resp_ok = True, resp_status = 200, resp_statusText = js ''OK'', resp_text = Some html \<rparr>"

definition serve :: "jsstring \<Rightarrow> jsstring \<Rightarrow> fetch_outcome" where
  "serve html url = FetchResolves (okResponse html)"

text \<open>
  Fixture pages: 1200 characters with the only period at index 850; 1200 characters with
  no period; a page of fewer than 100 characters; a page of more than 100 characters whose
  text is short once the script and the tags are gone; and exactly 100 characters of plain
  text.
\<close>

definition page850 :: jsstring where
  "page850 = replicate 850 0x61 @ [period] @ replicate 349 0x61"

definition pageNoPeriod :: jsstring where
  "pageNoPeriod = replicate 1200 0x61"

definition shortPage :: jsstring where
  "shortPage = js ''<html><body><p>Too short.</p></body></html>''"

definition markupPage :: jsstring where
  "markupPage = js ''<script>var unused = 1; function f(a, b) { return a + b; } f(1, 2); f(3, 4); f(5, 6);</SCRIPT> <p>Hi</p>''"

definition plainPage :: jsstring where
  "plainPage = js ''The quick brown fox jumps over the lazy dog near the bank of the river while the sun sets in the sea''"

text \<open>
  Fixtures for the capabilities: the parse of the URLs the examples use (every other
  string of the examples is one the parser rejects), a speech endpoint that returns four
  bytes, a model that answers with a preamble and a script, a model that answers with
  too little, an empty store and an empty bucket.
\<close>

definition sampleNewURL :: "jsstring \<Rightarrow> url_object option" where
  "sampleNewURL url =
     (if url = js ''https://news.example/story-1''
      then Some \<lparr> url_pathname = js ''/story-1'', url_hostname = js ''news.example'' \<rparr>
      else if url = js ''https://x.com/''
      then Some \<lparr> url_pathname = js ''/'', url_hostname = js ''x.com'' \<rparr>
      else if url = js ''https://www.example.com/''
      then Some \<lparr> url_pathname = js ''/'', url_hostname = js ''www.example.com'' \<rparr>
      else None)"

definition sampleTts :: "tts_request \<Rightarrow> tts_outcome" where
  "sampleTts request = TtsAudio [0xFF, 0xFB, 0x90, 0x00]"

definition sampleWorld :: "jsstring \<Rightarrow> world" where
  "sampleWorld page =
     \<lparr> fetch = serve page, newURL = sampleNewURL, elevenlabs = sampleTts,
       startTime = 1000, saveTime = 4500,
       uploadIso = js ''2025-01-01T00:00:04.400Z'', returnIso = js ''2025-01-01T00:00:04.500Z'' \<rparr>"

definition sampleScript :: jsstring where
  "sampleScript = js ''Welcome back to the show, where a quick brown fox makes the news.''"

definition sampleAI :: ai_binding where
  "sampleAI prompt = AiResolves (ResponseObject (Some (js ''  Here is your podcast script: '' @ sampleScript)) None)"


definition emptyDb :: d1 where
  "emptyDb =
     \<lparr> podcasts = [], processing_logs = [], d1_last_row_id = 0,
       d1_current_timestamp = js ''2025-01-01 00:00:04'', d1_select_ok = True, d1_insert_ok = True \<rparr>"

definition emptyBucket :: r2 where
  "emptyBucket = \<lparr> r2_objects = Map.empty, r2_put_ok = True \<rparr>"

definition sampleEnv :: env where
  "sampleEnv =
     \<lparr> PODCAST_DB = Some emptyDb, AI = Some sampleAI, AUDIO_BUCKET = Some emptyBucket,
       ELEVENLABS_API_KEY = Some (js ''key''), ELEVENLABS_VOICE_ID = None \<rparr>"

definition script900 :: jsstring where
  "script900 = replicate 650 0x61 @ [period] @ replicate 249 0x61"

text \<open>
  Fixtures for the pipeline: a store that already holds the record of the story (its
  \<open>audio_url\<close> is the bare file name, as \<open>PodcastWorkflow.run\<close> writes it), a store whose
  inserts fail, and a world whose network is down.
\<close>

definition storyUrl :: jsstring where
  "storyUrl = js ''https://news.example/story-1''"

definition workerOrigin :: jsstring where
  "workerOrigin = js ''https://worker.example''"




definition failingDb :: d1 where
  "failingDb = emptyDb\<lparr> d1_insert_ok := False \<rparr>"

definition failingEnv :: env where
  "failingEnv = sampleEnv\<lparr> PODCAST_DB := Some failingDb \<rparr>"



section \<open>Properties of the cache key\<close>

lemma drop_step: "i < length url \<Longrightarrow> drop i url = url ! i # drop (i + 1) url"
  using Cons_nth_drop_Suc[of i url] by simp

lemma cacheKeyLoop_sound:
  "cacheKeyLoop url i hash result \<Longrightarrow> result = hashLoop (drop i url) hash"
proof (induction rule: cacheKeyLoop.induct)
  case (loop_exit i url hash)
  then show ?case by simp
next
  case (loop_body i url hash result)
  from loop_body.hyps(1) have "drop i url = url ! i # drop (i + 1) url" by (rule drop_step)
  with loop_body.IH show ?case by simp
qed

lemma cacheKeyLoop_complete:
  "n = length url - i \<Longrightarrow> cacheKeyLoop url i hash (hashLoop (drop i url) hash)"
proof (induction n arbitrary: i hash)
  case 0
  then show ?case by (simp add: loop_exit)
next
  case (Suc n)
  then have lt: "i < length url" by simp
  then have d: "drop i url = url ! i # drop (i + 1) url" by (rule drop_step)
  from Suc.prems have "n = length url - (i + 1)" by simp
  then have "cacheKeyLoop url (i + 1) (hashStep hash (url ! i))
               (hashLoop (drop (i + 1) url) (hashStep hash (url ! i)))"
    by (rule Suc.IH)
  with lt have "cacheKeyLoop url i hash (hashLoop (drop (i + 1) url) (hashStep hash (url ! i)))"
    by (rule loop_body)
  then show ?case by (simp only: d hashLoop.simps)
qed

text \<open>
  C9 (cache-key determinism and purity). Every call of \<open>generateCacheKey\<close> on a string
  \<open>url\<close> runs its loop to the end and returns one and the same key, which the characters
  of \<open>url\<close> alone determine: the loop reads and writes nothing but its own two variables.
\<close>

theorem generateCacheKey_deterministic:
  "computesCacheKey url key \<longleftrightarrow> key = generateCacheKey url"
proof
  assume "computesCacheKey url key"
  then obtain hash where h: "cacheKeyLoop url 0 0 hash" and k: "key = toString36 (nat \<bar>hash\<bar>)"
    unfolding computesCacheKey_def by blast
  from h have "hash = hashLoop url 0" using cacheKeyLoop_sound[of url 0 0 hash] by simp
  with k show "key = generateCacheKey url" by (simp add: generateCacheKey_def)
next
  assume k: "key = generateCacheKey url"
  have "cacheKeyLoop url 0 0 (hashLoop url 0)"
    using cacheKeyLoop_complete[of "length url" url 0 0] by simp
  with k show "computesCacheKey url key"
    unfolding computesCacheKey_def generateCacheKey_def by blast
qed

section \<open>Properties of the truncation\<close>

lemma lastIndexOf_bounds: "-1 \<le> lastIndexOf s c \<and> lastIndexOf s c < int (length s)"
  by (induction s) (auto simp: Let_def)

lemma lastIndexOf_nth: "0 \<le> lastIndexOf s c \<Longrightarrow> s ! nat (lastIndexOf s c) = c"
proof (induction s)
  case Nil
  then show ?case by simp
next
  case (Cons x xs)
  show ?case
  proof (cases "0 \<le> lastIndexOf xs c")
    case True
    with Cons.IH have "xs ! nat (lastIndexOf xs c) = c" by simp
    with True show ?thesis by (simp add: Let_def nat_add_distrib)
  next
    case False
    with Cons.prems show ?thesis by (simp add: Let_def split: if_splits)
  qed
qed

lemma lastIndexOf_later: "lastIndexOf s c < int j \<Longrightarrow> j < length s \<Longrightarrow> s ! j \<noteq> c"
proof (induction s arbitrary: j)
  case Nil
  then show ?case by simp
next
  case (Cons x xs)
  show ?case
  proof (cases j)
    case 0
    with Cons.prems show ?thesis
      using lastIndexOf_bounds[of xs c] by (auto simp: Let_def split: if_splits)
  next
    case (Suc k)
    with Cons.prems have "lastIndexOf xs c < int k" "k < length xs"
      using lastIndexOf_bounds[of xs c] by (auto simp: Let_def split: if_splits)
    with Cons.IH Suc show ?thesis by simp
  qed
qed

lemma lastIndexOf_eqI:
  assumes "j < length s" "s ! j = c" "\<forall>k. j < k \<and> k < length s \<longrightarrow> s ! k \<noteq> c"
  shows "lastIndexOf s c = int j"
proof -
  let ?r = "lastIndexOf s c"
  have b: "-1 \<le> ?r" "?r < int (length s)" using lastIndexOf_bounds[of s c] by auto
  have "\<not> ?r < int j" using lastIndexOf_later[of s c j] assms by auto
  moreover have "\<not> int j < ?r"
  proof
    assume a: "int j < ?r"
    then have "0 \<le> ?r" by simp
    then have "s ! nat ?r = c" by (rule lastIndexOf_nth)
    moreover have "j < nat ?r \<and> nat ?r < length s" using a b by auto
    ultimately show False using assms(3) by blast
  qed
  ultimately show ?thesis by simp
qed

lemma lastIndexOf_none: "c \<notin> set s \<Longrightarrow> lastIndexOf s c = -1"
  by (induction s) (auto simp: Let_def)

lemma cut_short: "length text \<le> limit \<Longrightarrow> cutAtSentence limit threshold text = text"
  by (simp add: cutAtSentence_def)

lemma cut_long:
  assumes "limit < length text"
  shows "cutAtSentence limit threshold text =
           (if threshold < lastIndexOf (take limit text) period
            then take (nat (lastIndexOf (take limit text) period + 1)) text
            else take limit text)"
proof -
  have "lastIndexOf (take limit text) period < int (length (take limit text))"
    using lastIndexOf_bounds[of "take limit text" period] by blast
  then have "nat (lastIndexOf (take limit text) period + 1) \<le> limit" by simp
  then have "take (nat (lastIndexOf (take limit text) period + 1)) (take limit text)
             = take (nat (lastIndexOf (take limit text) period + 1)) text"
    by (simp add: min_def)
  with assms show ?thesis by (simp add: cutAtSentence_def substring_def Let_def)
qed

lemma cut_length:
  assumes "limit < length text"
  shows "length (cutAtSentence limit threshold text) \<le> limit"
proof -
  have "lastIndexOf (take limit text) period < int (length (take limit text))"
    using lastIndexOf_bounds[of "take limit text" period] by blast
  then have "nat (lastIndexOf (take limit text) period + 1) \<le> limit" by simp
  with assms show ?thesis by (simp add: cut_long)
qed

lemma cut_is_prefix: "cutAtSentence limit threshold text = take (length (cutAtSentence limit threshold text)) text"
proof (cases "limit < length text")
  case True
  then show ?thesis using lastIndexOf_bounds[of "take limit text" period]
    by (simp add: cut_long min_def)
next
  case False
  then show ?thesis by (simp add: cut_short)
qed

lemma cut_at_period:
  assumes "limit < length text" "threshold < lastIndexOf (take limit text) period" "0 \<le> threshold"
  shows "cutAtSentence limit threshold text = take (nat (lastIndexOf (take limit text) period + 1)) text
         \<and> length (cutAtSentence limit threshold text) = nat (lastIndexOf (take limit text) period + 1)
         \<and> last (cutAtSentence limit threshold text) = period"
proof -
  let ?p = "lastIndexOf (take limit text) period"
  have b: "?p < int (length (take limit text))" using lastIndexOf_bounds[of "take limit text" period] by blast
  have nn: "0 \<le> ?p" using assms by simp
  have n: "take limit text ! nat ?p = period" using nn by (rule lastIndexOf_nth)
  have lt: "nat ?p < limit" "nat ?p < length text" using b assms(1) nn by auto
  then have n': "text ! nat ?p = period" using n by simp
  have eq: "cutAtSentence limit threshold text = take (nat (?p + 1)) text" using assms by (simp add: cut_long)
  have suc: "nat (?p + 1) = Suc (nat ?p)" using nn by simp
  have "take (Suc (nat ?p)) text = take (nat ?p) text @ [text ! nat ?p]"
    using lt(2) by (rule take_Suc_conv_app_nth)
  then have "last (take (nat (?p + 1)) text) = period" using n' suc by simp
  moreover have "length (take (nat (?p + 1)) text) = nat (?p + 1)" using lt(2) suc by simp
  ultimately show ?thesis using eq by simp
qed

lemma cut_lower_bound:
  assumes "limit < length text" "0 \<le> threshold"
  shows "min (int limit) (threshold + 2) \<le> int (length (cutAtSentence limit threshold text))"
proof (cases "threshold < lastIndexOf (take limit text) period")
  case True
  from cut_at_period[OF assms(1) True assms(2)]
  have "length (cutAtSentence limit threshold text) = nat (lastIndexOf (take limit text) period + 1)" by blast
  with True assms(2) show ?thesis by simp
next
  case False
  with assms show ?thesis by (simp add: cut_long)
qed


lemma replaceAll_no_match:
  "m [] = None \<Longrightarrow> (\<And>c cs. c \<in> set t \<Longrightarrow> m (c # cs) = None) \<Longrightarrow> replaceAll m rep t = t"
  by (induction t) simp_all

lemma asciiUpper_lt: "asciiUpper c = 0x3C \<Longrightarrow> c = 0x3C"
  by (auto simp: asciiUpper_def diff_eq_eq split: if_splits)

lemma startsWithCI_lt: "startsWithCI (0x3C # pat) (c # cs) \<Longrightarrow> c = 0x3C"
proof -
  have "asciiUpper 0x3C = 0x3C" by (simp add: asciiUpper_def)
  moreover assume "startsWithCI (0x3C # pat) (c # cs)"
  ultimately have "asciiUpper c = 0x3C" by (simp add: startsWithCI_def)
  then show ?thesis by (rule asciiUpper_lt)
qed

lemma matchBlock_first: "c \<noteq> 0x3C \<Longrightarrow> matchBlock tag (c # cs) = None"
  using startsWithCI_lt[of "tag" c cs] by (auto simp: matchBlock_def js_def Let_def)

lemma matchBlock_Nil: "matchBlock tag [] = None"
  by (simp add: matchBlock_def js_def startsWithCI_def)

lemma matchComment_first: "c \<noteq> 0x3C \<Longrightarrow> matchComment (c # cs) = None"
  by (auto simp: matchComment_def js_def startsWith_def)

lemma matchComment_Nil: "matchComment [] = None"
  by (simp add: matchComment_def js_def startsWith_def)

lemma matchTag_first: "c \<noteq> 0x3C \<Longrightarrow> matchTag (c # cs) = None"
  by (simp add: matchTag_def)

lemma matchLiteral_first: "c \<noteq> p \<Longrightarrow> matchLiteral (p # ps) (c # cs) = None"
  by (auto simp: matchLiteral_def startsWith_def)

lemma matchLiteral_Nil: "matchLiteral (p # ps) [] = None"
  by (simp add: matchLiteral_def startsWith_def)

lemma no_markup:
  assumes "\<forall>c \<in> set t. c \<noteq> 0x3C"
  shows "replaceAll (matchBlock tag) rep t = t" "replaceAll matchComment rep t = t"
        "replaceAll matchTag rep t = t"
  using assms
  by (simp_all add: replaceAll_no_match matchBlock_first matchBlock_Nil matchComment_first
        matchComment_Nil matchTag_first matchTag_def)

lemma no_entity:
  assumes "\<forall>c \<in> set t. c \<noteq> 0x26"
  shows "decodeEntities t = t"
  using assms
  by (simp add: decodeEntities_def js_def replaceAll_no_match matchLiteral_first matchLiteral_Nil)

lemma matchWhiteSpace_other: "\<not> isWhiteSpace c \<Longrightarrow> matchWhiteSpace (c # cs) = None"
  by (simp add: matchWhiteSpace_def)

lemma matchWhiteSpace_Nil: "matchWhiteSpace [] = None"
  by (simp add: matchWhiteSpace_def)

lemma matchWhiteSpace_one:
  "isWhiteSpace c \<Longrightarrow> takeWhile isWhiteSpace cs = [] \<Longrightarrow> matchWhiteSpace (c # cs) = Some (Suc 0)"
  by (simp add: matchWhiteSpace_def)

lemma collapse_single_spaced:
  "\<forall>c \<in> set t. isWhiteSpace c \<longrightarrow> c = 0x20 \<Longrightarrow> singleSpaced t \<Longrightarrow>
   replaceAll matchWhiteSpace (js '' '') t = t"
proof (induction t)
  case Nil
  then show ?case by (simp add: matchWhiteSpace_Nil)
next
  case (Cons c cs)
  have ih: "replaceAll matchWhiteSpace (js '' '') cs = cs"
    using Cons by (cases cs) auto
  show ?case
  proof (cases "isWhiteSpace c")
    case False
    then show ?thesis using ih by (simp add: matchWhiteSpace_other)
  next
    case True
    with Cons.prems have c: "c = 0x20" by simp
    have "takeWhile isWhiteSpace cs = []"
    proof (cases cs)
      case Nil
      then show ?thesis by simp
    next
      case (Cons d ds)
      with Cons.prems c have "d \<noteq> 0x20" using \<open>singleSpaced (c # cs)\<close> by simp
      moreover have "isWhiteSpace d \<longrightarrow> d = 0x20" using Cons.prems(1) Cons by simp
      ultimately show ?thesis using Cons by simp
    qed
    with True have "matchWhiteSpace (c # cs) = Some (Suc 0)" by (rule matchWhiteSpace_one)
    then show ?thesis using ih c by (simp add: js_def)
  qed
qed

lemma trim_no_outer_space:
  assumes "case t of [] \<Rightarrow> True | c # _ \<Rightarrow> \<not> isWhiteSpace c" "t = [] \<or> \<not> isWhiteSpace (last t)"
  shows "trim t = t"
proof (cases t)
  case Nil
  then show ?thesis by (simp add: trim_def)
next
  case (Cons c cs)
  with assms have 1: "dropWhile isWhiteSpace t = t" by simp
  from Cons assms have "\<not> isWhiteSpace (last t)" by simp
  moreover from Cons have "t \<noteq> []" by simp
  then have "hd (rev t) = last t" by (simp only: hd_rev)
  ultimately have "\<not> isWhiteSpace (hd (rev t))" by simp
  then have "dropWhile isWhiteSpace (rev t) = rev t" by (simp add: dropWhile_eq_self_iff)
  with 1 show ?thesis by (simp add: trim_def)
qed

lemma cleanHtml_plain: "plainText t \<Longrightarrow> cleanHtml t = t"
proof -
  assume p: "plainText t"
  then have lt: "\<forall>c \<in> set t. c \<noteq> 0x3C" and amp: "\<forall>c \<in> set t. c \<noteq> 0x26"
    and ws: "\<forall>c \<in> set t. isWhiteSpace c \<longrightarrow> c = 0x20" and ss: "singleSpaced t"
    by (auto simp: plainText_def list_all_iff)
  have sp: "isWhiteSpace 0x20" by (simp add: isWhiteSpace_def)
  have h: "case t of [] \<Rightarrow> True | c # _ \<Rightarrow> \<not> isWhiteSpace c"
    using p ws by (cases t) (auto simp: plainText_def)
  have l: "t = [] \<or> \<not> isWhiteSpace (last t)"
  proof (cases t)
    case Nil
    then show ?thesis by simp
  next
    case (Cons c cs)
    then have "last t \<in> set t" by simp
    with ws p Cons show ?thesis by (auto simp: plainText_def)
  qed
  show ?thesis
    by (simp add: cleanHtml_def Let_def no_markup[OF lt] no_entity[OF amp]
          collapse_single_spaced[OF ws ss] trim_no_outer_space[OF h l])
qed



section \<open>Properties of the extraction\<close>


lemma plainText_no_space:
  assumes "t \<noteq> []" "\<forall>c \<in> set t. c \<noteq> 0x3C \<and> c \<noteq> 0x26 \<and> \<not> isWhiteSpace c"
  shows "plainText t"
proof -
  have sp: "isWhiteSpace 0x20" by (simp add: isWhiteSpace_def)
  have ns: "\<forall>c \<in> set t. c \<noteq> 0x20" using assms(2) sp by auto
  have "singleSpaced u" if "\<forall>c \<in> set u. c \<noteq> 0x20" for u
    using that by (induction u rule: singleSpaced.induct) auto
  with ns have "singleSpaced t" by blast
  moreover have "last t \<noteq> 0x20" using ns assms(1) last_in_set by blast
  moreover have "case t of [] \<Rightarrow> True | c # _ \<Rightarrow> c \<noteq> 0x20" using ns by (cases t) auto
  ultimately show ?thesis using assms(2) by (auto simp: plainText_def list_all_iff)
qed

lemma trim_no_space:
  assumes "\<forall>c \<in> set t. \<not> isWhiteSpace c"
  shows "trim t = t"
proof -
  have "dropWhile isWhiteSpace t = t" using assms by simp
  moreover have "dropWhile isWhiteSpace (rev t) = rev t"
    by (rule dropWhile_id) (use assms in simp)
  ultimately show ?thesis by (simp add: trim_def)
qed

text \<open>
  No pass of \<open>cleanHtml\<close> lengthens the text: every pattern matches at least one
  character and every replacement has at most one.
\<close>

lemma replaceAll_length:
  assumes "length rep \<le> 1" "m [] = None" "\<And>s. m s \<noteq> Some 0"
  shows "length (replaceAll m rep s) \<le> length s"
proof (induction "length s" arbitrary: s rule: less_induct)
  case less
  show ?case
  proof (cases s)
    case Nil
    with assms(2) show ?thesis by simp
  next
    case (Cons c cs)
    show ?thesis
    proof (cases "m (c # cs)")
      case None
      have "length (replaceAll m rep cs) \<le> length cs" using less[of cs] Cons by simp
      with None Cons show ?thesis by simp
    next
      case (Some n)
      with assms(3)[of "c # cs"] obtain k where k: "n = Suc k" by (cases n) auto
      have "length (replaceAll m rep (drop k cs)) \<le> length (drop k cs)"
        using less[of "drop k cs"] Cons by simp
      then have "length (replaceAll m rep (drop k cs)) \<le> length cs" by simp
      with Some k Cons assms(1) show ?thesis by simp
    qed
  qed
qed

lemma matchBlock_not_empty: "matchBlock tag s \<noteq> Some 0"
  by (auto simp: matchBlock_def Let_def js_def split: option.splits)

lemma matchComment_not_empty: "matchComment s \<noteq> Some 0"
  by (auto simp: matchComment_def split: option.splits)

lemma matchTag_not_empty: "matchTag s \<noteq> Some 0"
  by (auto simp: matchTag_def Let_def split: list.splits)

lemma matchTag_Nil: "matchTag [] = None"
  by (simp add: matchTag_def)

lemma matchLiteral_not_empty: "matchLiteral (p # ps) s \<noteq> Some 0"
  by (simp add: matchLiteral_def)

lemma matchWhiteSpace_not_empty: "matchWhiteSpace s \<noteq> Some 0"
  by (cases "takeWhile isWhiteSpace s") (simp_all add: matchWhiteSpace_def Let_def)

lemma length_trim_le: "length (trim s) \<le> length s"
proof -
  have "length (dropWhile isWhiteSpace (rev (dropWhile isWhiteSpace s))) \<le> length (rev (dropWhile isWhiteSpace s))"
    by (rule length_dropWhile_le)
  also have "\<dots> \<le> length s" using length_dropWhile_le[of isWhiteSpace s] by simp
  finally show ?thesis by (simp add: trim_def)
qed

lemma literal_pass_length:
  "length rep \<le> 1 \<Longrightarrow> length (replaceAll (matchLiteral (p # ps)) rep s) \<le> length s"
  by (rule replaceAll_length) (simp_all add: matchLiteral_Nil matchLiteral_not_empty)

lemma decodeEntities_length: "length (decodeEntities t) \<le> length t"
proof -
  let ?t1 = "replaceAll (matchLiteral (js ''&nbsp;'')) (js '' '') t"
  let ?t2 = "replaceAll (matchLiteral (js ''&amp;'')) (js ''&'') ?t1"
  let ?t3 = "replaceAll (matchLiteral (js ''&lt;'')) (js ''<'') ?t2"
  let ?t4 = "replaceAll (matchLiteral (js ''&gt;'')) (js ''>'') ?t3"
  let ?t5 = "replaceAll (matchLiteral (js ''&quot;'')) (js [CHR 0x22]) ?t4"
  let ?t6 = "replaceAll (matchLiteral (js ''&#39;'')) (js [CHR 0x27]) ?t5"
  let ?t7 = "replaceAll (matchLiteral (js ''&apos;'')) (js [CHR 0x27]) ?t6"
  have 1: "length ?t1 \<le> length t" by (simp add: js_def literal_pass_length)
  have 2: "length ?t2 \<le> length ?t1" by (simp add: js_def literal_pass_length)
  have 3: "length ?t3 \<le> length ?t2" by (simp add: js_def literal_pass_length)
  have 4: "length ?t4 \<le> length ?t3" by (simp add: js_def literal_pass_length)
  have 5: "length ?t5 \<le> length ?t4" by (simp add: js_def literal_pass_length)
  have 6: "length ?t6 \<le> length ?t5" by (simp add: js_def literal_pass_length)
  have 7: "length ?t7 \<le> length ?t6" by (simp add: js_def literal_pass_length)
  have "length ?t7 \<le> length t" using 1 2 3 4 5 6 7 by linarith
  then show ?thesis by (simp only: decodeEntities_def)
qed

lemma cleanHtml_length: "length (cleanHtml html) \<le> length html"
proof -
  let ?t1 = "replaceAll (matchBlock (js ''script'')) [] html"
  let ?t2 = "replaceAll (matchBlock (js ''style'')) [] ?t1"
  let ?t3 = "replaceAll matchComment [] ?t2"
  let ?t4 = "replaceAll matchTag (js '' '') ?t3"
  let ?t5 = "decodeEntities ?t4"
  let ?t6 = "replaceAll matchWhiteSpace (js '' '') ?t5"
  have 1: "length ?t1 \<le> length html"
    by (rule replaceAll_length) (simp_all add: matchBlock_Nil matchBlock_not_empty)
  have 2: "length ?t2 \<le> length ?t1"
    by (rule replaceAll_length) (simp_all add: matchBlock_Nil matchBlock_not_empty)
  have 3: "length ?t3 \<le> length ?t2"
    by (rule replaceAll_length) (simp_all add: matchComment_Nil matchComment_not_empty)
  have 4: "length ?t4 \<le> length ?t3"
    by (rule replaceAll_length) (simp_all add: matchTag_Nil matchTag_not_empty js_def)
  have 5: "length ?t5 \<le> length ?t4" by (rule decodeEntities_length)
  have 6: "length ?t6 \<le> length ?t5"
    by (rule replaceAll_length) (simp_all add: matchWhiteSpace_Nil matchWhiteSpace_not_empty js_def)
  have 7: "length (trim ?t6) \<le> length ?t6" by (rule length_trim_le)
  have "length (trim ?t6) \<le> length html" using 1 2 3 4 5 6 7 by linarith
  then show ?thesis by (simp only: cleanHtml_def Let_def)
qed

lemma scrape_ok:
  assumes "fetchPage url = FetchResolves response" "resp_ok response" "resp_text response = Some html"
    and "100 \<le> length html"
  shows "scrapeWebpage fetchPage url =
           (if length (cutAtSentence 1000 800 (cleanHtml html)) < 100 then Inl NotEnoughContent
            else Inr (cutAtSentence 1000 800 (cleanHtml html)))"
  using assms by (auto simp: scrapeWebpage_def Let_def)

text \<open>
  C4 (extraction truncation boundary). When the cleaned text \<open>t\<close> is longer than 1000
  characters, \<open>scrapeWebpage\<close> keeps its first 1000 characters and, when the last period
  among these stands at an index above 800, only the text up to and including that period.
  A text of 1200 characters with a period at index 850 and none between there and index
  1000 is cut behind index 850; one with no period among the first 1000 characters is cut to
  exactly 1000 characters.
\<close>

theorem extraction_truncation_boundary:
  assumes "fetchPage url = FetchResolves response" "resp_ok response" "resp_text response = Some html"
    and "cleanHtml html = t" and "1000 < length t"
  shows "(800 < lastIndexOf (take 1000 t) period \<longrightarrow>
            scrapeWebpage fetchPage url = Inr (take (nat (lastIndexOf (take 1000 t) period + 1)) t) \<and>
            last (take (nat (lastIndexOf (take 1000 t) period + 1)) t) = period \<and>
            (\<forall>j. lastIndexOf (take 1000 t) period < int j \<and> j < 1000 \<longrightarrow> t ! j \<noteq> period)) \<and>
         (lastIndexOf (take 1000 t) period \<le> 800 \<longrightarrow> scrapeWebpage fetchPage url = Inr (take 1000 t)) \<and>
         (length t = 1200 \<and> t ! 850 = period \<and> (\<forall>j. 850 < j \<and> j < 1000 \<longrightarrow> t ! j \<noteq> period) \<longrightarrow>
            scrapeWebpage fetchPage url = Inr (take 851 t)) \<and>
         (length t = 1200 \<and> (\<forall>j < 1000. t ! j \<noteq> period) \<longrightarrow>
            scrapeWebpage fetchPage url = Inr (take 1000 t))"
proof -
  let ?p = "lastIndexOf (take 1000 t) period"
  let ?c = "cutAtSentence 1000 800 t"
  have lb: "min (int 1000) (800 + 2) \<le> int (length ?c)"
    using assms(5) by (intro cut_lower_bound) simp_all
  then have "\<not> length ?c < 100" by simp
  moreover have "100 \<le> length html"
    using cleanHtml_length[of html] assms(4,5) by simp
  ultimately have r: "scrapeWebpage fetchPage url = Inr ?c"
    using scrape_ok[of fetchPage url response html] assms(1-4) by simp
  have A: "800 < ?p \<longrightarrow>
            scrapeWebpage fetchPage url = Inr (take (nat (?p + 1)) t) \<and>
            last (take (nat (?p + 1)) t) = period \<and>
            (\<forall>j. ?p < int j \<and> j < 1000 \<longrightarrow> t ! j \<noteq> period)"
  proof
    assume h: "800 < ?p"
    have z: "(0::int) \<le> 800" by simp
    from cut_at_period[OF assms(5) h z] have e: "?c = take (nat (?p + 1)) t" by blast
    from cut_at_period[OF assms(5) h z] have "last ?c = period" by blast
    then have "last (take (nat (?p + 1)) t) = period" by (simp only: e)
    moreover note e
    moreover have "t ! j \<noteq> period" if "?p < int j" "j < 1000" for j
    proof -
      have "j < length (take 1000 t)" using that assms(5) by simp
      with that(1) have "take 1000 t ! j \<noteq> period" by (rule lastIndexOf_later)
      with that(2) show ?thesis by simp
    qed
    ultimately show "scrapeWebpage fetchPage url = Inr (take (nat (?p + 1)) t) \<and>
            last (take (nat (?p + 1)) t) = period \<and>
            (\<forall>j. ?p < int j \<and> j < 1000 \<longrightarrow> t ! j \<noteq> period)" using r by auto
  qed
  have B: "?p \<le> 800 \<longrightarrow> scrapeWebpage fetchPage url = Inr (take 1000 t)"
    using r assms(5) by (simp add: cut_long)
  have C: "length t = 1200 \<and> t ! 850 = period \<and> (\<forall>j. 850 < j \<and> j < 1000 \<longrightarrow> t ! j \<noteq> period) \<longrightarrow>
            scrapeWebpage fetchPage url = Inr (take 851 t)"
  proof
    assume h: "length t = 1200 \<and> t ! 850 = period \<and> (\<forall>j. 850 < j \<and> j < 1000 \<longrightarrow> t ! j \<noteq> period)"
    have "?p = int 850"
    proof (rule lastIndexOf_eqI)
      show "850 < length (take 1000 t)" using h by simp
      show "take 1000 t ! 850 = period" using h by simp
      show "\<forall>k. 850 < k \<and> k < length (take 1000 t) \<longrightarrow> take 1000 t ! k \<noteq> period" using h by simp
    qed
    then show "scrapeWebpage fetchPage url = Inr (take 851 t)" using r assms(5) by (simp add: cut_long)
  qed
  have D: "length t = 1200 \<and> (\<forall>j < 1000. t ! j \<noteq> period) \<longrightarrow> scrapeWebpage fetchPage url = Inr (take 1000 t)"
  proof
    assume h: "length t = 1200 \<and> (\<forall>j < 1000. t ! j \<noteq> period)"
    have "period \<notin> set (take 1000 t)"
    proof
      assume "period \<in> set (take 1000 t)"
      then obtain j where "j < length (take 1000 t)" "take 1000 t ! j = period" by (auto simp: in_set_conv_nth)
      with h show False by simp
    qed
    then have "?p = -1" by (rule lastIndexOf_none)
    then show "scrapeWebpage fetchPage url = Inr (take 1000 t)" using r assms(5) by (simp add: cut_long)
  qed
  from A B C D show ?thesis by blast
qed


lemma page850_plain: "plainText page850"
  by (rule plainText_no_space) (auto simp: page850_def period_def isWhiteSpace_def)

lemma pageNoPeriod_plain: "plainText pageNoPeriod"
  by (rule plainText_no_space) (auto simp: pageNoPeriod_def isWhiteSpace_def)

theorem extraction_truncation_boundary_witness:
  "scrapeWebpage (serve page850) (js ''https://news.example/story-1'') = Inr (replicate 850 0x61 @ [period]) \<and>
   scrapeWebpage (serve pageNoPeriod) (js ''https://news.example/story-1'') = Inr (replicate 1000 0x61)"
proof
  let ?u = "js ''https://news.example/story-1''"
  have c: "cleanHtml page850 = page850" using page850_plain by (rule cleanHtml_plain)
  have h: "length page850 = 1200 \<and> page850 ! 850 = period \<and>
           (\<forall>j. 850 < j \<and> j < 1000 \<longrightarrow> page850 ! j \<noteq> period)"
    by (auto simp: page850_def nth_append nth_Cons' period_def)
  have "scrapeWebpage (serve page850) ?u = Inr (take 851 page850)"
    using extraction_truncation_boundary[of "serve page850" ?u "okResponse page850" page850 page850] c h
    by (simp add: serve_def okResponse_def)
  then show "scrapeWebpage (serve page850) ?u = Inr (replicate 850 0x61 @ [period])"
    by (simp add: page850_def)
next
  let ?u = "js ''https://news.example/story-1''"
  have c: "cleanHtml pageNoPeriod = pageNoPeriod" using pageNoPeriod_plain by (rule cleanHtml_plain)
  have h: "length pageNoPeriod = 1200 \<and> (\<forall>j<1000. pageNoPeriod ! j \<noteq> period)"
    by (auto simp: pageNoPeriod_def period_def)
  have "scrapeWebpage (serve pageNoPeriod) ?u = Inr (take 1000 pageNoPeriod)"
    using extraction_truncation_boundary[of "serve pageNoPeriod" ?u "okResponse pageNoPeriod" pageNoPeriod pageNoPeriod] c h
    by (simp add: serve_def okResponse_def)
  then show "scrapeWebpage (serve pageNoPeriod) ?u = Inr (replicate 1000 0x61)"
    by (simp add: pageNoPeriod_def)
qed

text \<open>
  C6 (minimum-content rejection). \<open>scrapeWebpage\<close> fails when the body of the response has
  fewer than 100 characters (\<open>Webpage returned empty or insufficient content\<close>) and when
  the cleaned text has fewer than 100 characters (\<open>Not enough meaningful content found on
  the page\<close>); on a body of exactly 100 characters of plain text it returns that text.
\<close>

theorem minimum_content_rejection:
  assumes "fetchPage url = FetchResolves response" "resp_ok response" "resp_text response = Some html"
  shows "(length html < 100 \<longrightarrow> scrapeWebpage fetchPage url = Inl InsufficientHtml) \<and>
         (100 \<le> length html \<and> length (cleanHtml html) < 100 \<longrightarrow>
            scrapeWebpage fetchPage url = Inl NotEnoughContent) \<and>
         (length html = 100 \<and> plainText html \<longrightarrow> scrapeWebpage fetchPage url = Inr html)"
proof (intro conjI impI)
  assume "length html < 100"
  with assms show "scrapeWebpage fetchPage url = Inl InsufficientHtml"
    by (simp add: scrapeWebpage_def)
next
  assume h: "100 \<le> length html \<and> length (cleanHtml html) < 100"
  then have "cutAtSentence 1000 800 (cleanHtml html) = cleanHtml html" by (simp add: cut_short)
  with h scrape_ok[of fetchPage url response html] assms
  show "scrapeWebpage fetchPage url = Inl NotEnoughContent" by simp
next
  assume h: "length html = 100 \<and> plainText html"
  then have "cleanHtml html = html" by (simp add: cleanHtml_plain)
  moreover from h have "cutAtSentence 1000 800 html = html" by (simp add: cut_short)
  ultimately show "scrapeWebpage fetchPage url = Inr html"
    using h scrape_ok[of fetchPage url response html] assms by simp
qed

lemmas regex_eval = js_def cleanHtml_def decodeEntities_def matchBlock_def matchComment_def
  matchTag_def matchWhiteSpace_def matchLiteral_def startsWith_def startsWithCI_def trim_def
  isWhiteSpace_def isWordChar_def asciiUpper_def asciiLower_def

lemma plainPage_facts: "length plainPage = 100 \<and> plainText plainPage"
  by (simp add: plainPage_def plainText_def js_def isWhiteSpace_def)

theorem minimum_content_rejection_witness:
  "scrapeWebpage (serve shortPage) (js ''https://news.example/story-1'') = Inl InsufficientHtml \<and>
   scrapeWebpage (serve markupPage) (js ''https://news.example/story-1'') = Inl NotEnoughContent \<and>
   scrapeWebpage (serve plainPage) (js ''https://news.example/story-1'') = Inr plainPage"
proof (intro conjI)
  let ?u = "js ''https://news.example/story-1''"
  have "length shortPage < 100" by (simp add: shortPage_def js_def)
  then show "scrapeWebpage (serve shortPage) ?u = Inl InsufficientHtml"
    using minimum_content_rejection[of "serve shortPage" ?u "okResponse shortPage" shortPage]
    by (simp add: serve_def okResponse_def)
next
  let ?u = "js ''https://news.example/story-1''"
  have "cleanHtml markupPage = js ''Hi''" by (simp add: markupPage_def regex_eval)
  then have "100 \<le> length markupPage \<and> length (cleanHtml markupPage) < 100"
    by (simp add: markupPage_def js_def)
  then show "scrapeWebpage (serve markupPage) ?u = Inl NotEnoughContent"
    using minimum_content_rejection[of "serve markupPage" ?u "okResponse markupPage" markupPage]
    by (simp add: serve_def okResponse_def)
next
  let ?u = "js ''https://news.example/story-1''"
  have "length plainPage = 100 \<and> plainText plainPage" by (rule plainPage_facts)
  then show "scrapeWebpage (serve plainPage) ?u = Inr plainPage"
    using minimum_content_rejection[of "serve plainPage" ?u "okResponse plainPage" plainPage]
    by (simp add: serve_def okResponse_def)
qed



section \<open>Properties of the synthesis\<close>

text \<open>
  C8 (synthesis truncation). When an API key is configured and the script is not blank,
  \<open>generateAudio\<close> sends exactly one request to the speech endpoint, and the text of that
  request is a prefix of the script of at most 800 characters: the script itself when it
  has at most 800 characters; otherwise its first 800 characters, cut behind their last
  period when that period stands at an index above 600. The two copies of the function
  (lines 816 to 882 of scraper.js and lines 238 to 304 of workflow.js) are the same text.
\<close>

theorem synthesis_truncation:
  assumes "ELEVENLABS_API_KEY env = Some apiKey" "apiKey \<noteq> []" "trim text \<noteq> []"
  shows "\<exists>request. snd (generateAudio w text env) = [TtsPost request] \<and>
           tts_text request = cutAtSentence 800 600 text \<and>
           length (tts_text request) \<le> 800 \<and>
           tts_text request = take (length (tts_text request)) text \<and>
           (length text \<le> 800 \<longrightarrow> tts_text request = text) \<and>
           (800 < length text \<and> 600 < lastIndexOf (take 800 text) period \<longrightarrow>
              tts_text request = take (nat (lastIndexOf (take 800 text) period + 1)) text \<and>
              last (tts_text request) = period) \<and>
           (800 < length text \<and> lastIndexOf (take 800 text) period \<le> 600 \<longrightarrow>
              tts_text request = take 800 text)"
proof -
  let ?c = "cutAtSentence 800 600 text"
  from assms(3) have ne: "text \<noteq> []" by (auto simp: trim_def)
  obtain voice where
    ev: "snd (generateAudio w text env) = [TtsPost \<lparr> tts_voiceId = voice, tts_apiKey = apiKey, tts_text = ?c \<rparr>]"
    using assms ne
    by (cases "elevenlabs w \<lparr> tts_voiceId = (case ELEVENLABS_VOICE_ID env of None \<Rightarrow> js ''21m00Tcm4TlvDq8ikWAM''
                  | Some v \<Rightarrow> if v = [] then js ''21m00Tcm4TlvDq8ikWAM'' else v), tts_apiKey = apiKey, tts_text = ?c \<rparr>")
       (simp_all add: generateAudio_def Let_def)
  have 1: "length ?c \<le> 800"
  proof (cases "800 < length text")
    case True
    then show ?thesis by (rule cut_length)
  next
    case False
    then show ?thesis by (simp add: cut_short)
  qed
  have 2: "?c = take (length ?c) text" by (rule cut_is_prefix)
  have 3: "length text \<le> 800 \<longrightarrow> ?c = text" by (simp add: cut_short)
  have 4: "800 < length text \<and> 600 < lastIndexOf (take 800 text) period \<longrightarrow>
              ?c = take (nat (lastIndexOf (take 800 text) period + 1)) text \<and> last ?c = period"
  proof
    assume h: "800 < length text \<and> 600 < lastIndexOf (take 800 text) period"
    have z: "(0::int) \<le> 600" by simp
    from h have a: "800 < length text" and b: "600 < lastIndexOf (take 800 text) period" by simp_all
    from cut_at_period[OF a b z]
    show "?c = take (nat (lastIndexOf (take 800 text) period + 1)) text \<and> last ?c = period" by blast
  qed
  have 5: "800 < length text \<and> lastIndexOf (take 800 text) period \<le> 600 \<longrightarrow> ?c = take 800 text"
    by (simp add: cut_long)
  let ?r = "\<lparr> tts_voiceId = voice, tts_apiKey = apiKey, tts_text = ?c \<rparr>"
  have t: "tts_text ?r = ?c" by simp
  have "snd (generateAudio w text env) = [TtsPost ?r] \<and>
           tts_text ?r = cutAtSentence 800 600 text \<and>
           length (tts_text ?r) \<le> 800 \<and>
           tts_text ?r = take (length (tts_text ?r)) text \<and>
           (length text \<le> 800 \<longrightarrow> tts_text ?r = text) \<and>
           (800 < length text \<and> 600 < lastIndexOf (take 800 text) period \<longrightarrow>
              tts_text ?r = take (nat (lastIndexOf (take 800 text) period + 1)) text \<and>
              last (tts_text ?r) = period) \<and>
           (800 < length text \<and> lastIndexOf (take 800 text) period \<le> 600 \<longrightarrow>
              tts_text ?r = take 800 text)"
    unfolding t
  proof (intro conjI)
    show "snd (generateAudio w text env) = [TtsPost ?r]" by (rule ev)
    show "?c = ?c" by (rule refl)
    show "length ?c \<le> 800" by (rule 1)
    show "?c = take (length ?c) text" by (rule 2)
    show "length text \<le> 800 \<longrightarrow> ?c = text" by (rule 3)
    show "800 < length text \<and> 600 < lastIndexOf (take 800 text) period \<longrightarrow>
              ?c = take (nat (lastIndexOf (take 800 text) period + 1)) text \<and> last ?c = period"
      by (rule 4)
    show "800 < length text \<and> lastIndexOf (take 800 text) period \<le> 600 \<longrightarrow> ?c = take 800 text"
      by (rule 5)
  qed
  then show ?thesis by (rule exI[of _ ?r])
qed

theorem synthesis_truncation_witness:
  "(\<exists>request. snd (generateAudio (sampleWorld plainPage) script900 sampleEnv) = [TtsPost request] \<and>
       tts_text request = replicate 650 0x61 @ [period]) \<and>
   (\<exists>request. snd (generateAudio (sampleWorld plainPage) (replicate 900 0x61) sampleEnv) = [TtsPost request] \<and>
       tts_text request = replicate 800 0x61) \<and>
   (\<exists>request. snd (generateAudio (sampleWorld plainPage) sampleScript sampleEnv) = [TtsPost request] \<and>
       tts_text request = sampleScript)"
proof (intro conjI)
  have k: "ELEVENLABS_API_KEY sampleEnv = Some (js ''key'')" "js ''key'' \<noteq> []"
    by (simp_all add: sampleEnv_def js_def)
  have t: "trim script900 \<noteq> []"
    by (subst trim_no_space) (auto simp: script900_def isWhiteSpace_def period_def)
  have "lastIndexOf (take 800 script900) period = int 650"
    by (rule lastIndexOf_eqI) (auto simp: script900_def nth_append nth_Cons' period_def)
  then have h: "800 < length script900 \<and> 600 < lastIndexOf (take 800 script900) period"
    by (simp add: script900_def)
  from synthesis_truncation[OF k t, of "sampleWorld plainPage"] obtain request where
    r: "snd (generateAudio (sampleWorld plainPage) script900 sampleEnv) = [TtsPost request]"
    and x: "800 < length script900 \<and> 600 < lastIndexOf (take 800 script900) period \<longrightarrow>
              tts_text request = take (nat (lastIndexOf (take 800 script900) period + 1)) script900 \<and>
              last (tts_text request) = period"
    by blast
  from x h \<open>lastIndexOf (take 800 script900) period = int 650\<close>
  have "tts_text request = take 651 script900" by simp
  then have "tts_text request = replicate 650 0x61 @ [period]" by (simp add: script900_def)
  with r show "\<exists>request. snd (generateAudio (sampleWorld plainPage) script900 sampleEnv) = [TtsPost request] \<and>
       tts_text request = replicate 650 0x61 @ [period]" by blast
next
  let ?s = "replicate 900 (0x61 :: jschar)"
  have k: "ELEVENLABS_API_KEY sampleEnv = Some (js ''key'')" "js ''key'' \<noteq> []"
    by (simp_all add: sampleEnv_def js_def)
  have t: "trim ?s \<noteq> []"
    by (subst trim_no_space) (auto simp: isWhiteSpace_def)
  have "lastIndexOf (take 800 ?s) period = -1"
    by (rule lastIndexOf_none) (simp add: period_def)
  then have h: "800 < length ?s \<and> lastIndexOf (take 800 ?s) period \<le> 600" by simp
  from synthesis_truncation[OF k t, of "sampleWorld plainPage"] obtain request where
    r: "snd (generateAudio (sampleWorld plainPage) ?s sampleEnv) = [TtsPost request]"
    and x: "800 < length ?s \<and> lastIndexOf (take 800 ?s) period \<le> 600 \<longrightarrow> tts_text request = take 800 ?s"
    by blast
  from x h have "tts_text request = replicate 800 0x61" by simp
  with r show "\<exists>request. snd (generateAudio (sampleWorld plainPage) ?s sampleEnv) = [TtsPost request] \<and>
       tts_text request = replicate 800 0x61" by blast
next
  have k: "ELEVENLABS_API_KEY sampleEnv = Some (js ''key'')" "js ''key'' \<noteq> []"
    by (simp_all add: sampleEnv_def js_def)
  have t: "trim sampleScript \<noteq> []"
    by (simp add: sampleScript_def js_def trim_def isWhiteSpace_def)
  have h: "length sampleScript \<le> 800" by (simp add: sampleScript_def js_def)
  from synthesis_truncation[OF k t, of "sampleWorld plainPage"] obtain request where
    r: "snd (generateAudio (sampleWorld plainPage) sampleScript sampleEnv) = [TtsPost request]"
    and x: "length sampleScript \<le> 800 \<longrightarrow> tts_text request = sampleScript"
    by blast
  from x h have "tts_text request = sampleScript" by simp
  with r show "\<exists>request. snd (generateAudio (sampleWorld plainPage) sampleScript sampleEnv) = [TtsPost request] \<and>
       tts_text request = sampleScript" by blast
qed



section \<open>Properties of the summarization\<close>


lemmas summary_eval = js_def cleanSummary_def matchPreamble_def matchAcknowledgement_def
  firstSome_def replaceFirstAtStart_def isLineTerminator_def List.map_filter_def
  startsWithCI_def trim_def isWhiteSpace_def asciiUpper_def

lemma cleanSummary_sample:
  "cleanSummary (js ''  Here is your podcast script: '' @ sampleScript) = sampleScript"
  by (simp add: sampleScript_def summary_eval)





section \<open>Properties of the title derivation\<close>


lemmas title_eval = js_def titleCandidate_def stripExtension_def replaceFirstLiteral_def
  period_def matchLiteral_def matchWhiteSpace_def startsWith_def trim_def isWhiteSpace_def
  asciiUpper_def asciiLower_def

lemma titleCandidate_x_com:
  "titleCandidate \<lparr> url_pathname = js ''/'', url_hostname = js ''x.com'' \<rparr> = js ''X''"
  by (simp add: title_eval)

lemma titleCandidate_example:
  "titleCandidate \<lparr> url_pathname = js ''/'', url_hostname = js ''www.example.com'' \<rparr> = js ''Example''"
  by (simp add: title_eval)

lemma titleCandidate_story:
  "titleCandidate \<lparr> url_pathname = js ''/story-1'', url_hostname = js ''news.example'' \<rparr> = js ''Story 1''"
  by (simp add: title_eval)

text \<open>
  C5, as stated, fails at its own example: for \<open>https://x.com/\<close> the title derived from
  the host name is \<open>X\<close>, one character, so \<open>extractTitle\<close> returns the fallback
  \<open>Article\<close>, the same value as for a string that is no URL.
\<close>

theorem title_x_com_counterexample:
  "titleCandidate \<lparr> url_pathname = js ''/'', url_hostname = js ''x.com'' \<rparr> = js ''X'' \<and>
   extractTitle sampleNewURL (js ''https://x.com/'') = js ''Article'' \<and>
   extractTitle sampleNewURL (js ''https://x.com/'') = extractTitle sampleNewURL (js ''not a url'')"
proof -
  have 1: "sampleNewURL (js ''https://x.com/'') = Some \<lparr> url_pathname = js ''/'', url_hostname = js ''x.com'' \<rparr>"
    by (simp add: sampleNewURL_def js_def)
  have 2: "sampleNewURL (js ''not a url'') = None"
    by (simp add: sampleNewURL_def js_def)
  have 3: "length (js ''X'') < 3" "length (js ''Article'') = 7" by (simp_all add: js_def)
  show ?thesis using 1 2 3 titleCandidate_x_com by (simp add: extractTitle_def Let_def)
qed

text \<open>
  C5 as amended (title derivation and fallback). \<open>extractTitle\<close> returns \<open>Article\<close> when
  the URL does not parse and whenever the derived title has fewer than 3 characters;
  otherwise it returns the derived title, cut to 100 characters and trimmed when longer.
  For a URL with host \<open>x.com\<close> and path \<open>/\<close> the derived title is \<open>X\<close> and the result
  is \<open>Article\<close>. The result never has more than 100 characters.
\<close>

theorem title_derivation_and_fallback:
  "(parseUrl url = None \<longrightarrow> extractTitle parseUrl url = js ''Article'') \<and>
   (parseUrl url = Some u \<and> length (titleCandidate u) < 3 \<longrightarrow> extractTitle parseUrl url = js ''Article'') \<and>
   (parseUrl url = Some u \<and> 3 \<le> length (titleCandidate u) \<and> length (titleCandidate u) \<le> 100 \<longrightarrow>
      extractTitle parseUrl url = titleCandidate u) \<and>
   (parseUrl url = Some u \<and> 100 < length (titleCandidate u) \<longrightarrow>
      extractTitle parseUrl url = trim (take 100 (titleCandidate u))) \<and>
   (parseUrl url = Some u \<and> url_pathname u = js ''/'' \<and> url_hostname u = js ''x.com'' \<longrightarrow>
      titleCandidate u = js ''X'' \<and> extractTitle parseUrl url = js ''Article'') \<and>
   length (extractTitle parseUrl url) \<le> 100"
proof -
  have a: "length (js ''Article'') = 7" by (simp add: js_def)
  have 1: "parseUrl url = None \<longrightarrow> extractTitle parseUrl url = js ''Article''"
    by (simp add: extractTitle_def)
  have 2: "parseUrl url = Some u \<and> length (titleCandidate u) < 3 \<longrightarrow> extractTitle parseUrl url = js ''Article''"
    using a by (simp add: extractTitle_def Let_def)
  have 3: "parseUrl url = Some u \<and> 3 \<le> length (titleCandidate u) \<and> length (titleCandidate u) \<le> 100 \<longrightarrow>
      extractTitle parseUrl url = titleCandidate u"
    by (auto simp: extractTitle_def Let_def)
  have 4: "parseUrl url = Some u \<and> 100 < length (titleCandidate u) \<longrightarrow>
      extractTitle parseUrl url = trim (take 100 (titleCandidate u))"
    by (auto simp: extractTitle_def Let_def substring_def)
  have 5: "parseUrl url = Some u \<and> url_pathname u = js ''/'' \<and> url_hostname u = js ''x.com'' \<longrightarrow>
      titleCandidate u = js ''X'' \<and> extractTitle parseUrl url = js ''Article''"
  proof
    assume h: "parseUrl url = Some u \<and> url_pathname u = js ''/'' \<and> url_hostname u = js ''x.com''"
    from h have "u = \<lparr> url_pathname = js ''/'', url_hostname = js ''x.com'' \<rparr>"
      by (cases u) simp
    then have t: "titleCandidate u = js ''X''" by (simp only: titleCandidate_x_com)
    then have "length (titleCandidate u) < 3" by (simp add: js_def)
    with 2 h t show "titleCandidate u = js ''X'' \<and> extractTitle parseUrl url = js ''Article''" by blast
  qed
  have 6: "length (extractTitle parseUrl url) \<le> 100"
  proof (cases "parseUrl url")
    case None
    then show ?thesis using 1 a by simp
  next
    case (Some v)
    have "length (trim (take 100 (titleCandidate v))) \<le> 100"
      using length_trim_le[of "take 100 (titleCandidate v)"] by simp
    then show ?thesis using Some a by (auto simp: extractTitle_def Let_def substring_def)
  qed
  from 1 2 3 4 5 6 show ?thesis by blast
qed

theorem title_derivation_and_fallback_witness:
  "extractTitle sampleNewURL (js ''not a url'') = js ''Article'' \<and>
   extractTitle sampleNewURL (js ''https://x.com/'') = js ''Article'' \<and>
   extractTitle sampleNewURL (js ''https://www.example.com/'') = js ''Example'' \<and>
   extractTitle sampleNewURL (js ''https://news.example/story-1'') = js ''Story 1''"
proof (intro conjI)
  have "sampleNewURL (js ''not a url'') = None"
    by (simp add: sampleNewURL_def js_def)
  then show "extractTitle sampleNewURL (js ''not a url'') = js ''Article''"
    using title_derivation_and_fallback[of sampleNewURL "js ''not a url''"] by simp
next
  let ?u = "\<lparr> url_pathname = js ''/'', url_hostname = js ''x.com'' \<rparr>"
  have "sampleNewURL (js ''https://x.com/'') = Some ?u"
    by (simp add: sampleNewURL_def js_def)
  then show "extractTitle sampleNewURL (js ''https://x.com/'') = js ''Article''"
    using title_derivation_and_fallback[of sampleNewURL "js ''https://x.com/''" ?u] by simp
next
  let ?u = "\<lparr> url_pathname = js ''/'', url_hostname = js ''www.example.com'' \<rparr>"
  have "sampleNewURL (js ''https://www.example.com/'') = Some ?u"
    by (simp add: sampleNewURL_def js_def)
  moreover have "3 \<le> length (titleCandidate ?u) \<and> length (titleCandidate ?u) \<le> 100"
    by (simp add: titleCandidate_example) (simp add: js_def)
  ultimately show "extractTitle sampleNewURL (js ''https://www.example.com/'') = js ''Example''"
    using title_derivation_and_fallback[of sampleNewURL "js ''https://www.example.com/''" ?u]
    by (simp add: titleCandidate_example)
next
  let ?u = "\<lparr> url_pathname = js ''/story-1'', url_hostname = js ''news.example'' \<rparr>"
  have "sampleNewURL (js ''https://news.example/story-1'') = Some ?u"
    by (simp add: sampleNewURL_def js_def)
  moreover have "3 \<le> length (titleCandidate ?u) \<and> length (titleCandidate ?u) \<le> 100"
    by (simp add: titleCandidate_story) (simp add: js_def)
  ultimately show "extractTitle sampleNewURL (js ''https://news.example/story-1'') = js ''Story 1''"
    using title_derivation_and_fallback[of sampleNewURL "js ''https://news.example/story-1''" ?u]
    by (simp add: titleCandidate_story)
qed



section \<open>The shape of a run of the synchronous pipeline\<close>

lemma init_env: "env\<lparr> PODCAST_DB := map_option initializeDatabase (PODCAST_DB env) \<rparr> = env"
proof -
  have "map_option initializeDatabase (PODCAST_DB env) = PODCAST_DB env"
    by (cases "PODCAST_DB env") (simp_all add: initializeDatabase_def)
  then show ?thesis by simp
qed

lemma step5_cases:
  obtains (fail) e where
      "step5_store w url userId env origin title content summary audio tr = failure e env tr"
  | (stored) bucket bucket' where
      "AUDIO_BUCKET env = Some bucket"
      "bucketPut bucket (audioFileName url)
         \<lparr> obj_body = audio, obj_contentType = js ''audio/mpeg'', obj_url = url,
           obj_title = title, obj_createdAt = uploadIso w, obj_userId = userId \<rparr> = Some bucket'"
      "step5_store w url userId env origin title content summary audio tr =
         step6_save w url userId env origin title content summary audio bucket' tr"
proof (cases "AUDIO_BUCKET env")
  case None
  then show ?thesis by (intro fail) (simp add: step5_store_def)
next
  case (Some bucket)
  show ?thesis
  proof (cases "bucketPut bucket (audioFileName url)
         \<lparr> obj_body = audio, obj_contentType = js ''audio/mpeg'', obj_url = url,
           obj_title = title, obj_createdAt = uploadIso w, obj_userId = userId \<rparr>")
    case None
    with Some show ?thesis by (intro fail) (simp add: step5_store_def)
  next
    case (Some bucket')
    with \<open>AUDIO_BUCKET env = Some bucket\<close> show ?thesis
      by (intro stored) (simp_all add: step5_store_def)
  qed
qed

lemma step4_cases:
  obtains (fail) e tr' where
      "step4_audio w url userId env origin title content summary tr = failure e env tr'"
  | (stored) audio requests bucket bucket' where
      "generateAudio w summary env = (Inr audio, requests)"
      "AUDIO_BUCKET env = Some bucket"
      "bucketPut bucket (audioFileName url)
         \<lparr> obj_body = audio, obj_contentType = js ''audio/mpeg'', obj_url = url,
           obj_title = title, obj_createdAt = uploadIso w, obj_userId = userId \<rparr> = Some bucket'"
      "step4_audio w url userId env origin title content summary tr =
         step6_save w url userId env origin title content summary audio bucket'
           (tr @ GenerateAudio summary # requests)"
proof (cases "generateAudio w summary env")
  case (Pair res requests)
  show ?thesis
  proof (cases res)
    case (Inl e)
    with Pair show ?thesis by (intro fail) (simp add: step4_audio_def)
  next
    case (Inr audio)
    show ?thesis
    proof (cases "length audio = 0")
      case True
      with Pair Inr show ?thesis by (intro fail) (simp add: step4_audio_def)
    next
      case False
      with Pair Inr have e: "step4_audio w url userId env origin title content summary tr =
          step5_store w url userId env origin title content summary audio (tr @ GenerateAudio summary # requests)"
        by (simp add: step4_audio_def)
      show ?thesis
      proof (cases rule: step5_cases[where w=w and url=url and userId=userId and env=env
                  and origin=origin and title=title and content=content and summary=summary
                  and audio=audio and tr="tr @ GenerateAudio summary # requests"])
        case (fail e')
        with e show ?thesis by (intro that(1)) simp
      next
        case (stored bucket bucket')
        with e Pair Inr show ?thesis by (intro that(2)) simp_all
      qed
    qed
  qed
qed

lemma step3_cases:
  obtains (fail) e tr' where
      "step3_summarize w url userId env origin title content tr = failure e env tr'"
  | (stored) ai summary requests1 audio requests2 bucket bucket' where
      "AI env = Some ai"
      "summarizeArticle (Some ai) (cutAtSentence 1000 800 content) = (Inr summary, requests1)"
      "generateAudio w summary env = (Inr audio, requests2)"
      "AUDIO_BUCKET env = Some bucket"
      "bucketPut bucket (audioFileName url)
         \<lparr> obj_body = audio, obj_contentType = js ''audio/mpeg'', obj_url = url,
           obj_title = title, obj_createdAt = uploadIso w, obj_userId = userId \<rparr> = Some bucket'"
      "step3_summarize w url userId env origin title content tr =
         step6_save w url userId env origin title content summary audio bucket'
           ((tr @ SummarizeArticle (cutAtSentence 1000 800 content) # requests1) @
            GenerateAudio summary # requests2)"
proof (cases "AI env")
  case None
  then show ?thesis by (intro fail) (simp add: step3_summarize_def)
next
  case (Some ai)
  show ?thesis
  proof (cases "summarizeArticle (Some ai) (cutAtSentence 1000 800 content)")
    case (Pair res requests1)
    show ?thesis
    proof (cases res)
      case (Inl e)
      with Some Pair show ?thesis by (intro fail) (simp add: step3_summarize_def)
    next
      case (Inr summary)
      show ?thesis
      proof (cases "summary = [] \<or> length summary < 30")
        case True
        with Some Pair Inr show ?thesis by (intro fail) (simp add: step3_summarize_def)
      next
        case False
        with Some Pair Inr have e: "step3_summarize w url userId env origin title content tr =
            step4_audio w url userId env origin title content summary
              (tr @ SummarizeArticle (cutAtSentence 1000 800 content) # requests1)"
          by (simp add: step3_summarize_def)
        show ?thesis
        proof (cases rule: step4_cases[where w=w and url=url and userId=userId and env=env
                  and origin=origin and title=title and content=content and summary=summary
                  and tr="tr @ SummarizeArticle (cutAtSentence 1000 800 content) # requests1"])
          case (fail e' tr')
          with e show ?thesis by (intro that(1)) simp
        next
          case (stored audio requests2 bucket bucket')
          with e Some Pair Inr show ?thesis by (intro that(2)) simp_all
        qed
      qed
    qed
  qed
qed

lemma step2_cases:
  obtains (fail) e tr' where
      "step2_scrape w url userId env origin = failure e env tr'"
  | (stored) content ai summary requests1 audio requests2 bucket bucket' where
      "scrapeWebpage (fetch w) url = Inr content"
      "AI env = Some ai"
      "summarizeArticle (Some ai) (cutAtSentence 1000 800 content) = (Inr summary, requests1)"
      "generateAudio w summary env = (Inr audio, requests2)"
      "AUDIO_BUCKET env = Some bucket"
      "bucketPut bucket (audioFileName url)
         \<lparr> obj_body = audio, obj_contentType = js ''audio/mpeg'', obj_url = url,
           obj_title = extractTitle (newURL w) url, obj_createdAt = uploadIso w,
           obj_userId = userId \<rparr> = Some bucket'"
      "step2_scrape w url userId env origin =
         step6_save w url userId env origin (extractTitle (newURL w) url) content summary audio bucket'
           (([ScrapeWebpage url, ExtractTitle url] @
             SummarizeArticle (cutAtSentence 1000 800 content) # requests1) @
            GenerateAudio summary # requests2)"
proof (cases "scrapeWebpage (fetch w) url")
  case (Inl e)
  then show ?thesis by (intro fail) (simp add: step2_scrape_def)
next
  case (Inr content)
  show ?thesis
  proof (cases "content = [] \<or> length content < 100")
    case True
    with Inr show ?thesis by (intro fail) (simp add: step2_scrape_def)
  next
    case False
    with Inr have e: "step2_scrape w url userId env origin =
        step3_summarize w url userId env origin (extractTitle (newURL w) url) content
          [ScrapeWebpage url, ExtractTitle url]"
      by (simp add: step2_scrape_def)
    show ?thesis
    proof (cases rule: step3_cases[where w=w and url=url and userId=userId and env=env
              and origin=origin and title="extractTitle (newURL w) url" and content=content
              and tr="[ScrapeWebpage url, ExtractTitle url]"])
      case (fail e' tr')
      with e show ?thesis by (intro that(1)) simp
    next
      case (stored ai summary requests1 audio requests2 bucket bucket')
      with e Inr show ?thesis by (intro that(2)) simp_all
    qed
  qed
qed

lemma generatePodcastSync_unfold:
  "generatePodcastSync w url userId env origin =
     (case (case PODCAST_DB env of None \<Rightarrow> None | Some db \<Rightarrow> getPodcastByUrl db url) of
        Some cachedData \<Rightarrow>
          \<lparr> outcome = Inr (cachedResult origin cachedData), db_after = PODCAST_DB env,
            bucket_after = AUDIO_BUCKET env, trace = [] \<rparr>
      | None \<Rightarrow> step2_scrape w url userId env origin)"
  by (simp only: generatePodcastSync_def init_env Let_def)

lemma sync_cases:
  obtains (hit) db data where
      "PODCAST_DB env = Some db" "getPodcastByUrl db url = Some data"
      "generatePodcastSync w url userId env origin =
         \<lparr> outcome = Inr (cachedResult origin data), db_after = PODCAST_DB env,
           bucket_after = AUDIO_BUCKET env, trace = [] \<rparr>"
  | (fail) e tr' where
      "generatePodcastSync w url userId env origin = failure e env tr'"
  | (stored) content ai summary requests1 audio requests2 bucket bucket' where
      "scrapeWebpage (fetch w) url = Inr content"
      "AI env = Some ai"
      "summarizeArticle (Some ai) (cutAtSentence 1000 800 content) = (Inr summary, requests1)"
      "generateAudio w summary env = (Inr audio, requests2)"
      "AUDIO_BUCKET env = Some bucket"
      "bucketPut bucket (audioFileName url)
         \<lparr> obj_body = audio, obj_contentType = js ''audio/mpeg'', obj_url = url,
           obj_title = extractTitle (newURL w) url, obj_createdAt = uploadIso w,
           obj_userId = userId \<rparr> = Some bucket'"
      "generatePodcastSync w url userId env origin =
         step6_save w url userId env origin (extractTitle (newURL w) url) content summary audio bucket'
           (([ScrapeWebpage url, ExtractTitle url] @
             SummarizeArticle (cutAtSentence 1000 800 content) # requests1) @
            GenerateAudio summary # requests2)"
proof (cases "case PODCAST_DB env of None \<Rightarrow> None | Some db \<Rightarrow> getPodcastByUrl db url")
  case (Some data)
  then obtain db where "PODCAST_DB env = Some db" "getPodcastByUrl db url = Some data"
    by (cases "PODCAST_DB env") simp_all
  then show ?thesis by (intro hit[of db data]) (simp_all add: generatePodcastSync_unfold)
next
  case None
  then have e: "generatePodcastSync w url userId env origin = step2_scrape w url userId env origin"
    by (simp add: generatePodcastSync_unfold)
  show ?thesis
  proof (cases rule: step2_cases[where w=w and url=url and userId=userId and env=env
            and origin=origin])
    case (fail e' tr')
    with e show ?thesis by (intro that(2)) simp
  next
    case (stored content ai summary requests1 audio requests2 bucket bucket')
    with e show ?thesis by (intro that(3)) simp_all
  qed
qed



lemma scrape_Inr_length: "scrapeWebpage fetchPage url = Inr content \<Longrightarrow> 100 \<le> length content"
  by (auto simp: scrapeWebpage_def Let_def split: fetch_outcome.splits option.splits if_splits)

lemma summarize_Inr:
  assumes "summarizeArticle ai content = (Inr summary, requests)"
  shows "50 \<le> length summary \<and> (\<exists>prompt. requests = [AiRun prompt])"
  using assms
  by (auto simp: summarizeArticle_def Let_def
           split: option.splits if_splits ai_outcome.splits)

lemma generateAudio_Inr:
  assumes "generateAudio w text env = (Inr audio, requests)"
  shows "audio \<noteq> [] \<and>
         (\<exists>request. requests = [TtsPost request] \<and> elevenlabs w request = TtsAudio audio \<and>
                    tts_text request = cutAtSentence 800 600 text)"
  using assms
  by (auto simp: generateAudio_def Let_def
           split: option.splits if_splits tts_outcome.splits)

lemma savePodcast_logs: "processing_logs (snd (savePodcast db data)) = processing_logs db"
  by (simp add: savePodcast_def Let_def)

lemma savePodcast_cases:
  obtains (rejected) "savePodcast db data = (None, db)"
  | (inserted) row where
      "savePodcast db data =
         (Some (row_id row), db\<lparr> podcasts := podcasts db @ [row], d1_last_row_id := row_id row \<rparr>)"
      "row_url row = pd_url data" "row_status row = orDefault (pd_status data) (js ''completed'')"
      "row_audio_file_name row = pd_audioFileName data" "row_cache_key row = pd_cacheKey data"
      "d1_insert_ok db" "\<not> uniqueViolation db (pd_url data) (pd_cacheKey data)"
proof (cases "d1_insert_ok db \<and> \<not> uniqueViolation db (pd_url data) (pd_cacheKey data)")
  case False
  then have "savePodcast db data = (None, db)" by (auto simp: savePodcast_def)
  then show ?thesis by (rule rejected)
next
  case True
  then show ?thesis
    by (intro inserted[of "insertedRow db data"]) (simp_all add: savePodcast_def Let_def insertedRow_def)
qed




section \<open>Properties of the synchronous pipeline\<close>





lemma bucketPut_ok:
  "r2_put_ok bucket \<Longrightarrow>
   bucketPut bucket key obj = Some (bucket\<lparr> r2_objects := (r2_objects bucket)(key \<mapsto> obj) \<rparr>)"
  by (simp add: bucketPut_def)

lemma bucketPut_Some:
  "bucketPut bucket key obj = Some bucket' \<Longrightarrow>
   bucket' = bucket\<lparr> r2_objects := (r2_objects bucket)(key \<mapsto> obj) \<rparr>"
  by (simp add: bucketPut_def split: if_splits)

lemma sync_fresh:
  assumes miss: "(case PODCAST_DB env of None \<Rightarrow> None | Some db \<Rightarrow> getPodcastByUrl db url) = None"
    and scr: "scrapeWebpage (fetch w) url = Inr content"
    and ai: "AI env = Some ai"
    and sm: "summarizeArticle (Some ai) (cutAtSentence 1000 800 content) = (Inr summary, requests1)"
    and au: "generateAudio w summary env = (Inr audio, requests2)"
    and bk: "AUDIO_BUCKET env = Some bucket" "r2_put_ok bucket"
  shows "generatePodcastSync w url userId env origin =
           step6_save w url userId env origin (extractTitle (newURL w) url) content summary audio
             (bucket\<lparr> r2_objects := (r2_objects bucket)(audioFileName url \<mapsto>
                \<lparr> obj_body = audio, obj_contentType = js ''audio/mpeg'', obj_url = url,
                  obj_title = extractTitle (newURL w) url, obj_createdAt = uploadIso w,
                  obj_userId = userId \<rparr>) \<rparr>)
             ([ScrapeWebpage url, ExtractTitle url] @
              SummarizeArticle (cutAtSentence 1000 800 content) # requests1 @
              GenerateAudio summary # requests2)"
proof -
  from scr have c: "\<not> (content = [] \<or> length content < 100)"
    using scrape_Inr_length[of "fetch w" url content] by auto
  from sm have s: "\<not> (summary = [] \<or> length summary < 30)"
    using summarize_Inr[of "Some ai" "cutAtSentence 1000 800 content" summary requests1] by auto
  from au have a: "length audio \<noteq> 0"
    using generateAudio_Inr[of w summary env audio requests2] by auto
  have 5: "step5_store w url userId env origin title content summary audio tr =
             step6_save w url userId env origin title content summary audio
               (bucket\<lparr> r2_objects := (r2_objects bucket)(audioFileName url \<mapsto>
                  \<lparr> obj_body = audio, obj_contentType = js ''audio/mpeg'', obj_url = url,
                    obj_title = title, obj_createdAt = uploadIso w, obj_userId = userId \<rparr>) \<rparr>) tr"
    for title tr
    using bk by (simp add: step5_store_def bucketPut_ok)
  have 4: "step4_audio w url userId env origin title content summary tr =
             step5_store w url userId env origin title content summary audio
               (tr @ GenerateAudio summary # requests2)" for title tr
    using au a by (simp add: step4_audio_def)
  have 3: "step3_summarize w url userId env origin title content tr =
             step4_audio w url userId env origin title content summary
               (tr @ SummarizeArticle (cutAtSentence 1000 800 content) # requests1)" for title tr
    using ai sm s by (simp add: step3_summarize_def)
  have 2: "step2_scrape w url userId env origin =
             step3_summarize w url userId env origin (extractTitle (newURL w) url) content
               [ScrapeWebpage url, ExtractTitle url]"
    using scr c by (simp add: step2_scrape_def)
  have 1: "generatePodcastSync w url userId env origin = step2_scrape w url userId env origin"
    using miss by (simp add: generatePodcastSync_unfold)
  show ?thesis by (simp add: 1 2 3 4 5)
qed



lemma scrape_story: "scrapeWebpage (fetch (sampleWorld plainPage)) url = Inr plainPage"
proof -
  have c: "cleanHtml plainPage = plainPage" using plainPage_facts by (simp add: cleanHtml_plain)
  have l: "length plainPage = 100" using plainPage_facts by simp
  then have k: "cutAtSentence 1000 800 plainPage = plainPage" by (simp add: cut_short)
  have "scrapeWebpage (serve plainPage) url =
           (if length (cutAtSentence 1000 800 (cleanHtml plainPage)) < 100 then Inl NotEnoughContent
            else Inr (cutAtSentence 1000 800 (cleanHtml plainPage)))"
    by (rule scrape_ok[of "serve plainPage" url "okResponse plainPage" plainPage])
       (simp_all add: serve_def okResponse_def l)
  then show ?thesis by (simp add: c k l sampleWorld_def)
qed

lemma cut_plainPage: "cutAtSentence 1000 800 plainPage = plainPage"
  using plainPage_facts by (simp add: cut_short)

lemma sampleScript_length: "length sampleScript = 65"
  by (simp add: sampleScript_def js_def)

lemma summarize_story:
  "summarizeArticle (Some sampleAI) plainPage = (Inr sampleScript, [AiRun (userPrompt plainPage)])"
proof -
  have l: "length plainPage = 100" using plainPage_facts by simp
  then have n: "plainPage \<noteq> []" by auto
  have t: "truthy (Some (js ''  Here is your podcast script: '' @ sampleScript))"
    by (simp add: truthy_def js_def)
  have s: "sampleScript \<noteq> []" using sampleScript_length by auto
  show ?thesis
    by (simp add: summarizeArticle_def Let_def l n cut_plainPage sampleAI_def t
          cleanSummary_sample sampleScript_length s)
qed

lemma trim_sampleScript: "trim sampleScript = sampleScript"
  by (simp add: sampleScript_def js_def trim_def isWhiteSpace_def)

lemma audio_story:
  assumes "ELEVENLABS_API_KEY env = Some (js ''key'')" "ELEVENLABS_VOICE_ID env = None"
  shows "generateAudio (sampleWorld page) sampleScript env =
           (Inr [0xFF, 0xFB, 0x90, 0x00],
            [TtsPost \<lparr> tts_voiceId = js ''21m00Tcm4TlvDq8ikWAM'', tts_apiKey = js ''key'',
                       tts_text = sampleScript \<rparr>])"
proof -
  have k: "js ''key'' \<noteq> []" by (simp add: js_def)
  have s: "sampleScript \<noteq> []" using sampleScript_length by auto
  have c: "cutAtSentence 800 600 sampleScript = sampleScript"
    by (simp add: cut_short sampleScript_length)
  show ?thesis
    using assms k s
    by (simp add: generateAudio_def Let_def trim_sampleScript c sampleWorld_def sampleTts_def)
qed

lemma key_story: "generateCacheKey storyUrl = js ''r8v9js''"
  by (simp add: storyUrl_def js_def generateCacheKey_def hashStep_def toInt32_def
        toString36.simps digit36_def)

lemma title_story: "extractTitle (newURL (sampleWorld page)) storyUrl = js ''Story 1''"
proof -
  have "sampleNewURL storyUrl = Some \<lparr> url_pathname = js ''/story-1'', url_hostname = js ''news.example'' \<rparr>"
    by (simp add: sampleNewURL_def storyUrl_def)
  moreover have "length (js ''Story 1'') = 7" "js ''Story 1'' \<noteq> []" by (simp_all add: js_def)
  ultimately show ?thesis
    by (simp add: extractTitle_def Let_def titleCandidate_story sampleWorld_def)
qed

lemma failingEnv_fields:
  "PODCAST_DB failingEnv = Some failingDb" "AI failingEnv = Some sampleAI"
  "AUDIO_BUCKET failingEnv = Some emptyBucket" "ELEVENLABS_API_KEY failingEnv = Some (js ''key'')"
  "ELEVENLABS_VOICE_ID failingEnv = None"
  by (simp_all add: failingEnv_def sampleEnv_def)

lemma failingDb_miss: "getPodcastByUrl failingDb url = None"
  by (simp add: getPodcastByUrl_def failingDb_def emptyDb_def)

lemma failingDb_save: "savePodcast failingDb data = (None, failingDb)"
  by (simp add: savePodcast_def failingDb_def emptyDb_def)

lemma failing_run:
  "generatePodcastSync (sampleWorld plainPage) storyUrl userId failingEnv origin =
     step6_save (sampleWorld plainPage) storyUrl userId failingEnv origin (js ''Story 1'') plainPage
       sampleScript [0xFF, 0xFB, 0x90, 0x00]
       (emptyBucket\<lparr> r2_objects := (r2_objects emptyBucket)(audioFileName storyUrl \<mapsto>
          \<lparr> obj_body = [0xFF, 0xFB, 0x90, 0x00], obj_contentType = js ''audio/mpeg'',
            obj_url = storyUrl, obj_title = js ''Story 1'',
            obj_createdAt = uploadIso (sampleWorld plainPage), obj_userId = userId \<rparr>) \<rparr>)
       ([ScrapeWebpage storyUrl, ExtractTitle storyUrl] @
        SummarizeArticle (cutAtSentence 1000 800 plainPage) # [AiRun (userPrompt plainPage)] @
        GenerateAudio sampleScript #
        [TtsPost \<lparr> tts_voiceId = js ''21m00Tcm4TlvDq8ikWAM'', tts_apiKey = js ''key'',
                   tts_text = sampleScript \<rparr>])"
proof -
  have miss: "(case PODCAST_DB failingEnv of None \<Rightarrow> None | Some db \<Rightarrow> getPodcastByUrl db storyUrl) = None"
    by (simp add: failingEnv_fields failingDb_miss)
  have sm: "summarizeArticle (Some sampleAI) (cutAtSentence 1000 800 plainPage)
              = (Inr sampleScript, [AiRun (userPrompt plainPage)])"
    by (simp add: cut_plainPage summarize_story)
  have pk: "r2_put_ok emptyBucket" by (simp add: emptyBucket_def)
  from sync_fresh[OF miss scrape_story failingEnv_fields(2) sm
          audio_story[OF failingEnv_fields(4,5)] failingEnv_fields(3) pk, of userId origin]
  show ?thesis by (simp only: title_story)
qed

text \<open>
  C2, as stated, fails in its last part: in a run where every step succeeds and the insert
  into the store fails, the caller gets a success, and the store is left exactly as it
  was; the table \<open>processing_logs\<close> stays empty. \<open>logProcessingError\<close> is imported by
  the entry point and never called; the failure is reported with \<open>console.error\<close> only.
\<close>

theorem persistence_failure_counterexample:
  "\<not> isl (outcome (generatePodcastSync (sampleWorld plainPage) storyUrl (js ''reader'') failingEnv workerOrigin)) \<and>
   db_after (generatePodcastSync (sampleWorld plainPage) storyUrl (js ''reader'') failingEnv workerOrigin)
     = Some failingDb \<and>
   processing_logs failingDb = []"
  by (simp add: failing_run step6_save_def Let_def failingEnv_fields failingDb_save)
     (simp add: failingDb_def emptyDb_def)


text \<open>
  C2 as amended (swallowed persistence failure). In every run of \<open>generatePodcastSync\<close> in
  which the lookup finds no row, extraction, summarization, synthesis and the upload
  succeed, and \<open>savePodcast\<close> reports a failure, the result is a success carrying the
  assembled record (status \<open>completed\<close>), the audio is in the bucket under its file name,
  and the store is left as it was: no row and no entry of \<open>processing_logs\<close> is written.
\<close>


theorem persistence_failure_swallowed:
  assumes "PODCAST_DB env = Some db" "getPodcastByUrl db url = None"
    and "scrapeWebpage (fetch w) url = Inr content"
    and "AI env = Some ai"
    and "summarizeArticle (Some ai) (cutAtSentence 1000 800 content) = (Inr summary, requests1)"
    and "generateAudio w summary env = (Inr audio, requests2)"
    and "AUDIO_BUCKET env = Some bucket" "r2_put_ok bucket"
    and "fst (savePodcast db
           (podcastData w url userId origin (extractTitle (newURL w) url) content summary audio)) = None"
  shows "outcome (generatePodcastSync w url userId env origin) =
           Inr ((podcastData w url userId origin (extractTitle (newURL w) url) content summary audio)
                  \<lparr> pd_createdAt := Some (returnIso w) \<rparr>) \<and>
         db_after (generatePodcastSync w url userId env origin) = Some db \<and>
         (\<exists>bucket' obj. bucket_after (generatePodcastSync w url userId env origin) = Some bucket' \<and>
            r2_objects bucket' (audioFileName url) = Some obj \<and> obj_body obj = audio)"
proof -
  let ?data = "podcastData w url userId origin (extractTitle (newURL w) url) content summary audio"
  have miss: "(case PODCAST_DB env of None \<Rightarrow> None | Some db \<Rightarrow> getPodcastByUrl db url) = None"
    using assms(1,2) by simp
  note run = sync_fresh[OF miss assms(3-8), of userId origin]
  have "snd (savePodcast db ?data) = db"
    using assms(9) by (cases rule: savePodcast_cases[of db ?data]) simp_all
  then have d: "db_after (generatePodcastSync w url userId env origin) = Some db"
    using assms(1) by (simp add: run step6_save_def Let_def)
  have o: "outcome (generatePodcastSync w url userId env origin) =
           Inr (?data\<lparr> pd_createdAt := Some (returnIso w) \<rparr>)"
    by (simp add: run step6_save_def Let_def podcastData_def)
  have b: "\<exists>bucket' obj. bucket_after (generatePodcastSync w url userId env origin) = Some bucket' \<and>
            r2_objects bucket' (audioFileName url) = Some obj \<and> obj_body obj = audio"
    by (simp add: run step6_save_def Let_def)
  from o d b show ?thesis by blast
qed


theorem persistence_failure_swallowed_witness:
  "outcome (generatePodcastSync (sampleWorld plainPage) storyUrl (js ''reader'') failingEnv workerOrigin) =
     Inr ((podcastData (sampleWorld plainPage) storyUrl (js ''reader'') workerOrigin (js ''Story 1'')
             plainPage sampleScript [0xFF, 0xFB, 0x90, 0x00])
            \<lparr> pd_createdAt := Some (js ''2025-01-01T00:00:04.500Z'') \<rparr>) \<and>
   db_after (generatePodcastSync (sampleWorld plainPage) storyUrl (js ''reader'') failingEnv workerOrigin)
     = Some failingDb"
proof -
  have sm: "summarizeArticle (Some sampleAI) (cutAtSentence 1000 800 plainPage)
              = (Inr sampleScript, [AiRun (userPrompt plainPage)])"
    by (simp add: cut_plainPage summarize_story)
  have pk: "r2_put_ok emptyBucket" by (simp add: emptyBucket_def)
  have sv: "fst (savePodcast failingDb
           (podcastData (sampleWorld plainPage) storyUrl (js ''reader'') workerOrigin
              (extractTitle (newURL (sampleWorld plainPage)) storyUrl) plainPage sampleScript
              [0xFF, 0xFB, 0x90, 0x00])) = None"
    by (simp add: failingDb_save)
  have r: "returnIso (sampleWorld plainPage) = js ''2025-01-01T00:00:04.500Z''"
    by (simp add: sampleWorld_def)
  from persistence_failure_swallowed[OF failingEnv_fields(1) failingDb_miss scrape_story
         failingEnv_fields(2) sm audio_story[OF failingEnv_fields(4,5)] failingEnv_fields(3) pk sv]
  show ?thesis by (simp only: title_story r)
qed


section \<open>The shape of a run of the step-wise pipeline\<close>









section \<open>Record creation\<close>








lemma sampleEnv_fields:
  "PODCAST_DB sampleEnv = Some emptyDb" "AI sampleEnv = Some sampleAI"
  "AUDIO_BUCKET sampleEnv = Some emptyBucket" "ELEVENLABS_API_KEY sampleEnv = Some (js ''key'')"
  "ELEVENLABS_VOICE_ID sampleEnv = None"
  by (simp_all add: sampleEnv_def)

lemma emptyDb_miss: "getPodcastByUrl emptyDb url = None"
  by (simp add: getPodcastByUrl_def emptyDb_def)



lemma success_run:
  "generatePodcastSync (sampleWorld plainPage) storyUrl userId sampleEnv origin =
     step6_save (sampleWorld plainPage) storyUrl userId sampleEnv origin (js ''Story 1'') plainPage
       sampleScript [0xFF, 0xFB, 0x90, 0x00]
       (emptyBucket\<lparr> r2_objects := (r2_objects emptyBucket)(audioFileName storyUrl \<mapsto>
          \<lparr> obj_body = [0xFF, 0xFB, 0x90, 0x00], obj_contentType = js ''audio/mpeg'',
            obj_url = storyUrl, obj_title = js ''Story 1'',
            obj_createdAt = uploadIso (sampleWorld plainPage), obj_userId = userId \<rparr>) \<rparr>)
       ([ScrapeWebpage storyUrl, ExtractTitle storyUrl] @
        SummarizeArticle (cutAtSentence 1000 800 plainPage) # [AiRun (userPrompt plainPage)] @
        GenerateAudio sampleScript #
        [TtsPost \<lparr> tts_voiceId = js ''21m00Tcm4TlvDq8ikWAM'', tts_apiKey = js ''key'',
                   tts_text = sampleScript \<rparr>])"
proof -
  have miss: "(case PODCAST_DB sampleEnv of None \<Rightarrow> None | Some db \<Rightarrow> getPodcastByUrl db storyUrl) = None"
    by (simp add: sampleEnv_fields emptyDb_miss)
  have sm: "summarizeArticle (Some sampleAI) (cutAtSentence 1000 800 plainPage)
              = (Inr sampleScript, [AiRun (userPrompt plainPage)])"
    by (simp add: cut_plainPage summarize_story)
  have pk: "r2_put_ok emptyBucket" by (simp add: emptyBucket_def)
  from sync_fresh[OF miss scrape_story sampleEnv_fields(2) sm
          audio_story[OF sampleEnv_fields(4,5)] sampleEnv_fields(3) pk, of userId origin]
  show ?thesis by (simp only: title_story)
qed




text \<open>
  C10 (deterministic audio object key). A run of \<open>generatePodcastSync\<close> for \<open>url\<close> writes to
  the bucket, if at all, under the one key \<open>podcast_\<close> + \<open>generateCacheKey(url)\<close> + \<open>.mp3\<close>;
  a successful run that is not a cache hit has put the audio under that key and returns a
  record with that \<open>audioFileName\<close>; a row the run saves has that \<open>audio_file_name\<close>; and
  two such successful runs for the same URL, whatever the world, the bindings, the owner
  and the origin, use the same key.
\<close>

theorem audio_object_key_deterministic:
  "(bucket_after (generatePodcastSync w url userId env origin) = AUDIO_BUCKET env \<or>
    (\<exists>bucket obj. AUDIO_BUCKET env = Some bucket \<and>
       bucket_after (generatePodcastSync w url userId env origin) =
         Some (bucket\<lparr> r2_objects :=
                 (r2_objects bucket)(js ''podcast_'' @ generateCacheKey url @ js ''.mp3'' \<mapsto> obj) \<rparr>))) \<and>
   (outcome (generatePodcastSync w url userId env origin) = Inr d \<and> \<not> pd_cached d \<longrightarrow>
      pd_audioFileName d = js ''podcast_'' @ generateCacheKey url @ js ''.mp3'' \<and>
      (\<exists>bucket' obj. bucket_after (generatePodcastSync w url userId env origin) = Some bucket' \<and>
         r2_objects bucket' (pd_audioFileName d) = Some obj)) \<and>
   (db_after (generatePodcastSync w url userId env origin) = PODCAST_DB env \<or>
    (\<exists>db row. PODCAST_DB env = Some db \<and>
       db_after (generatePodcastSync w url userId env origin) =
         Some (db\<lparr> podcasts := podcasts db @ [row], d1_last_row_id := row_id row \<rparr>) \<and>
       row_audio_file_name row = js ''podcast_'' @ generateCacheKey url @ js ''.mp3'')) \<and>
   (outcome (generatePodcastSync w url userId env origin) = Inr d \<and> \<not> pd_cached d \<and>
    outcome (generatePodcastSync w2 url userId2 env2 origin2) = Inr d2 \<and> \<not> pd_cached d2 \<longrightarrow>
      pd_audioFileName d = pd_audioFileName d2)"
proof -
  let ?key = "js ''podcast_'' @ generateCacheKey url @ js ''.mp3''"
  have fresh: "pd_audioFileName x = ?key \<and>
      (\<exists>bucket' obj. bucket_after (generatePodcastSync v url u e g) = Some bucket' \<and>
         r2_objects bucket' (pd_audioFileName x) = Some obj)"
    if "outcome (generatePodcastSync v url u e g) = Inr x" "\<not> pd_cached x" for v u e g x
  proof (cases rule: sync_cases[where w=v and url=url and userId=u and env=e and origin=g])
    case (hit db data)
    have "pd_cached (cachedResult g data)" by (simp add: cachedResult_def)
    with that hit(3) show ?thesis by auto
  next
    case (fail err tr')
    with that show ?thesis by (simp add: failure_def)
  next
    case (stored content ai summary requests1 audio requests2 bucket bucket')
    from stored(6) have "bucket' = bucket\<lparr> r2_objects := (r2_objects bucket)(audioFileName url \<mapsto>
         \<lparr> obj_body = audio, obj_contentType = js ''audio/mpeg'', obj_url = url,
           obj_title = extractTitle (newURL v) url, obj_createdAt = uploadIso v,
           obj_userId = u \<rparr>) \<rparr>"
      by (rule bucketPut_Some)
    with that stored(7) show ?thesis
      by (auto simp: step6_save_def Let_def podcastData_def audioFileName_def)
  qed
  have A: "bucket_after (generatePodcastSync w url userId env origin) = AUDIO_BUCKET env \<or>
    (\<exists>bucket obj. AUDIO_BUCKET env = Some bucket \<and>
       bucket_after (generatePodcastSync w url userId env origin) =
         Some (bucket\<lparr> r2_objects := (r2_objects bucket)(?key \<mapsto> obj) \<rparr>))"
  proof (cases rule: sync_cases[where w=w and url=url and userId=userId and env=env and origin=origin])
    case (hit db data)
    then show ?thesis by simp
  next
    case (fail err tr')
    then show ?thesis by (simp add: failure_def)
  next
    case (stored content ai summary requests1 audio requests2 bucket bucket')
    from stored(6) have "bucket' = bucket\<lparr> r2_objects := (r2_objects bucket)(audioFileName url \<mapsto>
         \<lparr> obj_body = audio, obj_contentType = js ''audio/mpeg'', obj_url = url,
           obj_title = extractTitle (newURL w) url, obj_createdAt = uploadIso w,
           obj_userId = userId \<rparr>) \<rparr>"
      by (rule bucketPut_Some)
    with stored(5,7) have "AUDIO_BUCKET env = Some bucket \<and>
       bucket_after (generatePodcastSync w url userId env origin) =
         Some (bucket\<lparr> r2_objects := (r2_objects bucket)(?key \<mapsto>
            \<lparr> obj_body = audio, obj_contentType = js ''audio/mpeg'', obj_url = url,
              obj_title = extractTitle (newURL w) url, obj_createdAt = uploadIso w,
              obj_userId = userId \<rparr>) \<rparr>)"
      by (simp add: step6_save_def Let_def audioFileName_def)
    then show ?thesis by blast
  qed
  have C: "db_after (generatePodcastSync w url userId env origin) = PODCAST_DB env \<or>
    (\<exists>db row. PODCAST_DB env = Some db \<and>
       db_after (generatePodcastSync w url userId env origin) =
         Some (db\<lparr> podcasts := podcasts db @ [row], d1_last_row_id := row_id row \<rparr>) \<and>
       row_audio_file_name row = ?key)"
  proof (cases rule: sync_cases[where w=w and url=url and userId=userId and env=env and origin=origin])
    case (hit db data)
    then show ?thesis by simp
  next
    case (fail err tr')
    then show ?thesis by (simp add: failure_def)
  next
    case (stored content ai summary requests1 audio requests2 bucket bucket')
    let ?data = "podcastData w url userId origin (extractTitle (newURL w) url) content summary audio"
    have d: "db_after (generatePodcastSync w url userId env origin) =
               map_option (\<lambda>db. snd (savePodcast db ?data)) (PODCAST_DB env)"
      by (simp add: stored(7) step6_save_def Let_def)
    show ?thesis
    proof (cases "PODCAST_DB env")
      case None
      with d show ?thesis by simp
    next
      case (Some store)
      show ?thesis
      proof (cases rule: savePodcast_cases[of store ?data])
        case rejected
        with d Some show ?thesis by simp
      next
        case (inserted row)
        have "row_audio_file_name row = ?key"
          using inserted(4) by (simp add: podcastData_def audioFileName_def)
        moreover have "db_after (generatePodcastSync w url userId env origin) =
            Some (store\<lparr> podcasts := podcasts store @ [row], d1_last_row_id := row_id row \<rparr>)"
          using d Some inserted(1) by simp
        ultimately show ?thesis using Some by blast
      qed
    qed
  qed
  from fresh[of w userId env origin d] fresh[of w2 userId2 env2 origin2 d2] A C
  show ?thesis by auto
qed

theorem audio_object_key_deterministic_witness:
  "\<exists>d bucket' obj.
     outcome (generatePodcastSync (sampleWorld plainPage) storyUrl (js ''reader'') sampleEnv workerOrigin) = Inr d \<and>
     pd_audioFileName d = js ''podcast_r8v9js.mp3'' \<and>
     bucket_after (generatePodcastSync (sampleWorld plainPage) storyUrl (js ''reader'') sampleEnv workerOrigin)
       = Some bucket' \<and>
     r2_objects bucket' (js ''podcast_r8v9js.mp3'') = Some obj"
proof -
  let ?r = "generatePodcastSync (sampleWorld plainPage) storyUrl (js ''reader'') sampleEnv workerOrigin"
  obtain d where o: "outcome ?r = Inr d" and c: "\<not> pd_cached d"
    by (simp add: success_run step6_save_def Let_def podcastData_def)
  have k: "js ''podcast_'' @ generateCacheKey storyUrl @ js ''.mp3'' = js ''podcast_r8v9js.mp3''"
    by (simp add: key_story) (simp add: js_def)
  from audio_object_key_deterministic[of "sampleWorld plainPage" storyUrl "js ''reader''" sampleEnv
         workerOrigin d] o c
  have "pd_audioFileName d = js ''podcast_'' @ generateCacheKey storyUrl @ js ''.mp3'' \<and>
      (\<exists>bucket' obj. bucket_after ?r = Some bucket' \<and>
         r2_objects bucket' (pd_audioFileName d) = Some obj)" by blast
  with o k show ?thesis by auto
qed


end
